theory Spec2Isabelle
  imports Complex_Main
begin

section \<open>Data model (src/providers/SessionProvider.tsx, constants/game)\<close>

text \<open>
  A JavaScript \<open>number\<close> is modelled as a \<open>real\<close>: all arithmetic below is the exact
  arithmetic the source's formulas denote, without the rounding of IEEE-754 doubles and
  without NaN or the infinities (the one place where the source relies on an infinity,
  the initial bounding box, is modelled explicitly).  The arbitration constants 0.5, 1.0,
  1.5 and 2.0 are dyadic, so for them the two arithmetics coincide; the increment 0.2 is
  not, and what is proved about it is proved of the exact sum.
\<close>

record LatLng =
  latitude :: real
  longitude :: real
  timestamp :: real

datatype ActivityMode = Walk | Run | Cycle

record TerritoryOwner =
  ownerId :: string
  strength :: real

text \<open>The source's field \<open>id\<close> is called \<open>terr_id\<close> here (\<open>id\<close> is the identity of HOL).\<close>

record Territory =
  terr_id :: string
  mode :: ActivityMode
  polygon :: "LatLng list"
  createdAt :: real
  owners :: "TerritoryOwner list"

definition LOOP_CLOSE_THRESHOLD_M :: real where
  "LOOP_CLOSE_THRESHOLD_M = 50"

definition MIN_LOOP_DISTANCE_M :: real where
  "MIN_LOOP_DISTANCE_M = 20"

definition MIN_TERRITORY_AREA_M2 :: real where
  "MIN_TERRITORY_AREA_M2 = 30"

definition DAILY_DECAY_RATE :: real where
  "DAILY_DECAY_RATE = 0.02"

section \<open>Geo primitives (lines 50-123)\<close>

definition toRad :: "real \<Rightarrow> real" where
  "toRad x = (x * pi) / 180"

text \<open>
  \<open>Math.atan2(y, x)\<close> on finite arguments: the angle of the point \<open>(x, y)\<close>, in
  \<open>(-\<pi>, \<pi>]\<close>.
\<close>

definition atan2 :: "real \<Rightarrow> real \<Rightarrow> real" where
  "atan2 y x =
     (if 0 < x then arctan (y / x)
      else if x < 0 then (if 0 \<le> y then arctan (y / x) + pi else arctan (y / x) - pi)
      else if 0 < y then pi / 2
      else if y < 0 then - (pi / 2)
      else 0)"

definition haversine :: "LatLng \<Rightarrow> LatLng \<Rightarrow> real" where
  "haversine a b =
     (let R = 6371000;
          dLat = toRad (latitude b - latitude a);
          dLon = toRad (longitude b - longitude a);
          lat1 = toRad (latitude a);
          lat2 = toRad (latitude b);
          sinDLat = sin (dLat / 2);
          sinDLon = sin (dLon / 2);
          h = sinDLat * sinDLat + cos lat1 * cos lat2 * sinDLon * sinDLon;
          c = 2 * atan2 (sqrt h) (sqrt (1 - h))
      in R * c)"

text \<open>\<open>toMetersXY\<close> returns the object \<open>{x, y}\<close>, here the pair \<open>(x, y)\<close>.\<close>

definition toMetersXY :: "real \<Rightarrow> LatLng \<Rightarrow> real \<times> real" where
  "toMetersXY originLat p =
     (let R = 6378137;
          dLat = ((latitude p - originLat) * pi) / 180;
          dLon = (longitude p * pi) / 180;
          x = R * dLon * cos ((originLat * pi) / 180);
          y = R * dLat
      in (x, y))"

text \<open>
  The shoelace loop runs over the indices \<open>0 .. pts.length - 1\<close>, reading \<open>pts[i]\<close> and
  \<open>pts[(i + 1) % pts.length]\<close>; both reads are in range.
\<close>

definition shoelaceSum :: "(real \<times> real) list \<Rightarrow> real" where
  "shoelaceSum pts =
     foldl (\<lambda>sum i.
              let a = pts ! i; b = pts ! ((i + 1) mod length pts)
              in sum + (fst a * snd b - fst b * snd a))
           0 [0..<length pts]"

definition polygonAreaM2 :: "LatLng list \<Rightarrow> real" where
  "polygonAreaM2 poly =
     (if length poly < 3 then 0
      else let originLat = latitude (poly ! 0);
               pts = map (toMetersXY originLat) poly
           in \<bar>shoelaceSum pts\<bar> / 2)"

text \<open>
  \<open>bbox\<close> starts from \<open>Infinity\<close> and \<open>-Infinity\<close>, which remain in the box of an empty
  polygon; a bound is therefore a real number or one of the two infinities, compared as
  JavaScript's \<open><\<close> compares them.
\<close>

datatype bound = NegInfinity | Num real | Infinity

fun bound_less :: "bound \<Rightarrow> bound \<Rightarrow> bool" where
  "bound_less (Num x) (Num y) = (x < y)"
| "bound_less NegInfinity NegInfinity = False"
| "bound_less NegInfinity _ = True"
| "bound_less Infinity _ = False"
| "bound_less (Num x) Infinity = True"
| "bound_less (Num x) NegInfinity = False"

record BBox =
  minLat :: bound
  minLon :: bound
  maxLat :: bound
  maxLon :: bound

definition bboxStep :: "BBox \<Rightarrow> LatLng \<Rightarrow> BBox" where
  "bboxStep B p =
     \<lparr>minLat = (if bound_less (Num (latitude p)) (minLat B) then Num (latitude p) else minLat B),
      minLon = (if bound_less (Num (longitude p)) (minLon B) then Num (longitude p) else minLon B),
      maxLat = (if bound_less (maxLat B) (Num (latitude p)) then Num (latitude p) else maxLat B),
      maxLon = (if bound_less (maxLon B) (Num (longitude p)) then Num (longitude p) else maxLon B)\<rparr>"

definition bbox :: "LatLng list \<Rightarrow> BBox" where
  "bbox poly =
     foldl bboxStep \<lparr>minLat = Infinity, minLon = Infinity, maxLat = NegInfinity, maxLon = NegInfinity\<rparr> poly"

definition bboxesOverlap :: "LatLng list \<Rightarrow> LatLng list \<Rightarrow> bool" where
  "bboxesOverlap a b =
     (let A = bbox a; B = bbox b
      in \<not> (bound_less (maxLat A) (minLat B) \<or> bound_less (maxLat B) (minLat A)
             \<or> bound_less (maxLon A) (minLon B) \<or> bound_less (maxLon B) (minLon A)))"

section \<open>Path smoothing (lines 64-84)\<close>

text \<open>\<open>Math.round\<close> rounds to the nearest integer, a tie towards \<open>+\<infinity>\<close>.\<close>

definition mathRound :: "real \<Rightarrow> real" where
  "mathRound x = of_int \<lfloor>x + 1 / 2\<rfloor>"

text \<open>
  The body of the outer loop for the index \<open>i\<close>: the inner loop runs \<open>j\<close> from \<open>start\<close> to
  \<open>end\<close> inclusive, which are clamped to the array, so that every \<open>points[j]\<close> is in range.
\<close>

definition smoothPoint :: "LatLng list \<Rightarrow> real \<Rightarrow> nat \<Rightarrow> LatLng" where
  "smoothPoint points w i =
     (let start = max 0 (int i - \<lfloor>w / 2\<rfloor>);
          end = min (int (length points) - 1) (int i + \<lfloor>w / 2\<rfloor>);
          js = map nat [start..end];
          lat = foldl (\<lambda>acc j. acc + latitude (points ! j)) 0 js;
          lon = foldl (\<lambda>acc j. acc + longitude (points ! j)) 0 js;
          ts = foldl (\<lambda>acc j. acc + timestamp (points ! j)) 0 js;
          n = real (length js)
      in \<lparr>latitude = lat / n, longitude = lon / n, timestamp = mathRound (ts / n)\<rparr>)"

definition smoothPath :: "LatLng list \<Rightarrow> real \<Rightarrow> LatLng list" where
  "smoothPath points windowSize =
     (if length points \<le> 2 then points
      else let w = max 2 (min windowSize 5)
           in map (smoothPoint points w) [0..<length points])"

section \<open>Ownership arbitration on one territory (lines 1114-1137)\<close>

text \<open>\<open>t.owners.find((o) => o?.ownerId === ownerId)\<close>: the first owner record of the claimant.\<close>

definition myOwnership :: "string \<Rightarrow> TerritoryOwner list \<Rightarrow> TerritoryOwner option" where
  "myOwnership oid os = find (\<lambda>ow. ownerId ow = oid) os"

text \<open>\<open>t.owners.filter((o) => o?.ownerId !== ownerId)\<close>.\<close>

definition otherOwners :: "string \<Rightarrow> TerritoryOwner list \<Rightarrow> TerritoryOwner list" where
  "otherOwners oid os = filter (\<lambda>ow. ownerId ow \<noteq> oid) os"

text \<open>
  \<open>myOwnership.strength = s\<close> writes through the reference that \<open>find\<close> returned, that is
  into the first record of the array whose \<open>ownerId\<close> is the claimant's.
\<close>

fun setMyStrength :: "string \<Rightarrow> real \<Rightarrow> TerritoryOwner list \<Rightarrow> TerritoryOwner list" where
  "setMyStrength oid s [] = []"
| "setMyStrength oid s (x # xs) =
     (if ownerId x = oid then x\<lparr>strength := s\<rparr> # xs else x # setMyStrength oid s xs)"

text \<open>\<open>otherOwners.reduce((sum, o) => sum + o.strength, 0)\<close>.\<close>

definition totalOthersStrength :: "TerritoryOwner list \<Rightarrow> real" where
  "totalOthersStrength others = foldl (\<lambda>sum ow. sum + strength ow) 0 others"

text \<open>
  The three mutually exclusive branches of the source, in its order.  The result is the
  territory's owners array after the step and whether an entry was pushed to \<open>changed\<close>
  (no branch is taken when the owners array is empty).
\<close>

definition arbitrateOwners :: "string \<Rightarrow> TerritoryOwner list \<Rightarrow> TerritoryOwner list \<times> bool" where
  "arbitrateOwners oid os =
     (let mine = myOwnership oid os; others = otherOwners oid os in
      if mine \<noteq> None \<and> length others = 0 then
        (setMyStrength oid (min 2.0 (strength (the mine) + 0.2)) os, True)
      else if length others > 0 \<and> mine = None then
        (os @ [\<lparr>ownerId = oid, strength = 0.5\<rparr>], True)
      else if mine \<noteq> None \<and> length others > 0 then
        (let s = strength (the mine) + 0.5 in
         if s \<ge> 1.0 \<and> s > totalOthersStrength others
         then ([\<lparr>ownerId = oid, strength = 1.0\<rparr>], True)
         else (setMyStrength oid s os, True))
      else (os, False))"

text \<open>One capture by \<open>oid\<close> over a territory with owners \<open>os\<close>: the owners afterwards.\<close>

definition capture :: "string \<Rightarrow> TerritoryOwner list \<Rightarrow> TerritoryOwner list" where
  "capture oid os = fst (arbitrateOwners oid os)"

section \<open>Arbitration over the territory collection (lines 1087-1154)\<close>

text \<open>
  The loop of the \<open>setTerritories\<close> updater over the existing territories.  The result is
  the array \<open>updated\<close> before the insertion, the entries pushed to \<open>changed\<close> (territory id
  and owners) and the flag \<open>overlappedExistingTerritories\<close>.  The record type excludes the
  malformed entries (\<open>null\<close>, no polygon array, no owners array) that the source skips or
  repairs.  The source changes the owners arrays in place; the model is of one run of the
  updater and returns the collection that the run leaves.
\<close>

fun arbitrateTerritories ::
  "string \<Rightarrow> LatLng list \<Rightarrow> Territory list \<Rightarrow>
     Territory list \<times> (string \<times> TerritoryOwner list) list \<times> bool" where
  "arbitrateTerritories oid newPoly [] = ([], [], False)"
| "arbitrateTerritories oid newPoly (t # ts) =
     (case arbitrateTerritories oid newPoly ts of (updated, changed, overlapped) \<Rightarrow>
        if bboxesOverlap (polygon t) newPoly then
          (case arbitrateOwners oid (owners t) of (os', pushed) \<Rightarrow>
             (t\<lparr>owners := os'\<rparr> # updated,
              (if pushed then [(terr_id t, os')] else []) @ changed,
              True))
        else (t # updated, changed, overlapped))"

text \<open>
  The updater itself: the new territory is put in front when nothing overlapped.  The
  result is the new territory collection, \<open>changed\<close> and \<open>shouldAddNewTerritory\<close>.
\<close>

definition setTerritoriesUpdater ::
  "string \<Rightarrow> Territory \<Rightarrow> Territory list \<Rightarrow>
     Territory list \<times> (string \<times> TerritoryOwner list) list \<times> bool" where
  "setTerritoriesUpdater oid nt prev =
     (case arbitrateTerritories oid (polygon nt) prev of (updated, changed, overlapped) \<Rightarrow>
        if \<not> overlapped then (nt # updated, changed, True)
        else (updated, changed, False))"

text \<open>The record \<open>newTerr\<close> of lines 1087-1093; \<open>uid()\<close> and \<open>Date.now()\<close> are parameters.\<close>

definition newTerr :: "string \<Rightarrow> ActivityMode \<Rightarrow> LatLng list \<Rightarrow> real \<Rightarrow> string \<Rightarrow> Territory" where
  "newTerr newId m poly now oid =
     \<lparr>terr_id = newId, mode = m, polygon = poly, createdAt = now,
      owners = [\<lparr>ownerId = oid, strength = 1\<rparr>]\<rparr>"

section \<open>Loop detection (lines 1001-1190)\<close>

text \<open>The inner loop: \<open>pathDist\<close> summed over \<open>j = i .. smoothed.length - 2\<close>.\<close>

definition pathDist :: "LatLng list \<Rightarrow> nat \<Rightarrow> real" where
  "pathDist smoothed i =
     foldl (\<lambda>d j. d + haversine (smoothed ! j) (smoothed ! (j + 1))) 0 [i..<length smoothed - 1]"

text \<open>
  The scanning loop from the index \<open>i\<close> on, with its \<open>break\<close>: the result is
  \<open>(loopStartIdx, loopDistance)\<close> when \<open>loopDetected\<close> is set and \<open>None\<close> otherwise.
\<close>

function scanLoop :: "LatLng list \<Rightarrow> LatLng \<Rightarrow> nat \<Rightarrow> (nat \<times> real) option" where
  "scanLoop smoothed lastp i =
     (if int i < max 0 (int (length smoothed) - 10) then
        if haversine (smoothed ! i) lastp < LOOP_CLOSE_THRESHOLD_M
           \<and> pathDist smoothed i > MIN_LOOP_DISTANCE_M
        then Some (i, pathDist smoothed i)
        else scanLoop smoothed lastp (i + 1)
      else None)"
  by pat_completeness auto
termination
  by (relation "measure (\<lambda>(smoothed, lastp, i). length smoothed - i)") auto

text \<open>The equation of \<open>scanLoop\<close> unfolds for ever; it is used by substitution only.\<close>

declare scanLoop.simps [simp del]

definition detectLoop :: "LatLng list \<Rightarrow> (nat \<times> real) option" where
  "detectLoop smoothed =
     (if length smoothed > 10 then scanLoop smoothed (smoothed ! (length smoothed - 1)) 0
      else None)"

text \<open>
  The part of the provider's state that the effect reads and writes.  The distance
  accounting of lines 1019-1046 and the persistence calls touch none of these fields and
  are left out.
\<close>

record ProviderState =
  path :: "LatLng list"
  territories :: "Territory list"
  capturedLoopCount :: nat
  lastCaptured :: "Territory option"

text \<open>
  One run of the effect on a path update, for the selected mode (\<open>None\<close> is the source's
  \<open>null\<close>) and the claiming owner.
\<close>

definition loopEffect ::
  "string \<Rightarrow> real \<Rightarrow> ActivityMode option \<Rightarrow> string \<Rightarrow> ProviderState \<Rightarrow> ProviderState" where
  "loopEffect newId now m oid st =
     (if length (path st) < 2 \<or> m = None then st
      else
        let smoothed = smoothPath (path st) 3 in
        case detectLoop smoothed of
          None \<Rightarrow> st
        | Some (loopStartIdx, loopDistance) \<Rightarrow>
            let poly = drop loopStartIdx smoothed;
                area = polygonAreaM2 poly
            in if area \<ge> MIN_TERRITORY_AREA_M2 then
                 let nt = newTerr newId (the m) poly now oid in
                 st\<lparr>territories := fst (setTerritoriesUpdater oid nt (territories st)),
                    capturedLoopCount := capturedLoopCount st + 1,
                    lastCaptured := Some nt,
                    path := take (loopStartIdx + 1) smoothed\<rparr>
               else st)"

section \<open>Decay projector (lines 1401-1412)\<close>

text \<open>
  \<open>Date.now()\<close> is the parameter \<open>now\<close>.  The filter of the source keeps every
  well-formed territory, and the record type has no others.
\<close>

definition decayedTerritories :: "real \<Rightarrow> Territory list \<Rightarrow> Territory list" where
  "decayedTerritories now ts =
     map (\<lambda>t. let days = (now - createdAt t) / (1000 * 60 * 60 * 24);
                  decay = (1 - DAILY_DECAY_RATE) powr (max 0 days)
              in t\<lparr>owners := map (\<lambda>ow. ow\<lparr>strength := strength ow * decay\<rparr>) (owners t)\<rparr>)
         ts"

section \<open>The decay projector on a store of objects (lines 1401-1412)\<close>

text \<open>
  A second model of \<open>decayedTerritories\<close>, on the objects it reads and builds, so that what
  it writes can be stated.  A territory object refers to an array, which refers to owner
  objects; the projector reads them and allocates a new owner object for every
  \<open>{ ...o, strength }\<close>, a new array for every \<open>map\<close> over owners and a new territory object
  for every \<open>{ ...t, owners }\<close>.  Its \<open>filter\<close> drops every entry that is not a territory
  object with an owners array; reading \<open>strength\<close> from an entry of an owners array that is
  not an object is a \<open>TypeError\<close>, the result \<open>None\<close>.
\<close>

type_synonym ref = nat

record TerritoryObj =
  obj_id :: string
  obj_mode :: ActivityMode
  obj_polygon :: "LatLng list"
  obj_createdAt :: real
  obj_owners :: ref

datatype obj = OwnerObj TerritoryOwner | ArrayObj "ref list" | TerrObj TerritoryObj

record store =
  cells :: "ref \<Rightarrow> obj option"
  fresh :: ref

text \<open>Allocation takes the next unused reference.\<close>

definition alloc :: "obj \<Rightarrow> store \<Rightarrow> ref \<times> store" where
  "alloc v s = (fresh s, s\<lparr>cells := (cells s)(fresh s \<mapsto> v), fresh := fresh s + 1\<rparr>)"

text \<open>\<open>(t.owners ?? []).map((o) => ({ ...o, strength: o.strength * decay }))\<close>.\<close>

fun spreadOwners :: "real \<Rightarrow> ref list \<Rightarrow> store \<Rightarrow> (ref list \<times> store) option" where
  "spreadOwners decay [] s = Some ([], s)"
| "spreadOwners decay (r # rs) s =
     (case cells s r of
        Some (OwnerObj ow) \<Rightarrow>
          (case alloc (OwnerObj (ow\<lparr>strength := strength ow * decay\<rparr>)) s of (r', s1) \<Rightarrow>
           case spreadOwners decay rs s1 of
             None \<Rightarrow> None
           | Some (rs', s2) \<Rightarrow> Some (r' # rs', s2))
      | _ \<Rightarrow> None)"

fun decayedTerritoriesOnStore :: "real \<Rightarrow> ref list \<Rightarrow> store \<Rightarrow> (ref list \<times> store) option" where
  "decayedTerritoriesOnStore now [] s = Some ([], s)"
| "decayedTerritoriesOnStore now (r # rs) s =
     (case cells s r of
        Some (TerrObj t) \<Rightarrow>
          (case cells s (obj_owners t) of
             Some (ArrayObj ors) \<Rightarrow>
               (let days = (now - obj_createdAt t) / (1000 * 60 * 60 * 24);
                    decay = (1 - DAILY_DECAY_RATE) powr (max 0 days)
                in case spreadOwners decay ors s of
                     None \<Rightarrow> None
                   | Some (ors', s1) \<Rightarrow>
                       (case alloc (ArrayObj ors') s1 of (a, s2) \<Rightarrow>
                        case alloc (TerrObj (t\<lparr>obj_owners := a\<rparr>)) s2 of (r', s3) \<Rightarrow>
                        case decayedTerritoriesOnStore now rs s3 of
                          None \<Rightarrow> None
                        | Some (rs', s4) \<Rightarrow> Some (r' # rs', s4)))
           | _ \<Rightarrow> decayedTerritoriesOnStore now rs s)
      | _ \<Rightarrow> decayedTerritoriesOnStore now rs s)"

text \<open>The values that a store holds behind references, when they are well-formed.\<close>

fun readOwners :: "store \<Rightarrow> ref list \<Rightarrow> TerritoryOwner list option" where
  "readOwners s [] = Some []"
| "readOwners s (r # rs) =
     (case cells s r of
        Some (OwnerObj ow) \<Rightarrow> map_option ((#) ow) (readOwners s rs)
      | _ \<Rightarrow> None)"

definition readTerritory :: "store \<Rightarrow> ref \<Rightarrow> Territory option" where
  "readTerritory s r =
     (case cells s r of
        Some (TerrObj t) \<Rightarrow>
          (case cells s (obj_owners t) of
             Some (ArrayObj ors) \<Rightarrow>
               map_option (\<lambda>os. \<lparr>terr_id = obj_id t, mode = obj_mode t, polygon = obj_polygon t,
                                   createdAt = obj_createdAt t, owners = os\<rparr>)
                 (readOwners s ors)
           | _ \<Rightarrow> None)
      | _ \<Rightarrow> None)"

fun readTerritories :: "store \<Rightarrow> ref list \<Rightarrow> Territory list option" where
  "readTerritories s [] = Some []"
| "readTerritories s (r # rs) =
     (case readTerritory s r of
        None \<Rightarrow> None
      | Some t \<Rightarrow> map_option ((#) t) (readTerritories s rs))"

text \<open>
  Every object of a store lies below its next unused reference; and a store extends
  another when every cell below the other's next unused reference is unchanged.
\<close>

definition closedStore :: "store \<Rightarrow> bool" where
  "closedStore s \<longleftrightarrow> (\<forall>a. cells s a \<noteq> None \<longrightarrow> a < fresh s)"

definition extendsStore :: "store \<Rightarrow> store \<Rightarrow> bool" where
  "extendsStore s s' \<longleftrightarrow> fresh s \<le> fresh s' \<and> (\<forall>a<fresh s. cells s' a = cells s a)"

section \<open>Notions of the specification\<close>

text \<open>The decay factor in the words of the specification (section 4.5).\<close>

definition decayFactor :: "real \<Rightarrow> Territory \<Rightarrow> real" where
  "decayFactor now t = (1 - 0.02) powr max 0 ((now - createdAt t) / 86400000)"

text \<open>
  The loop detector in the words of the specification (section 4.3): the cumulative path
  distance from an index to the end, the test on a candidate start index, the first
  candidate of the oldest-first scan, and the polygon captured, if any.
\<close>

definition cumulativeDistance :: "LatLng list \<Rightarrow> nat \<Rightarrow> real" where
  "cumulativeDistance smoothed i =
     (\<Sum>j = i..<length smoothed - 1. haversine (smoothed ! j) (smoothed ! (j + 1)))"

definition closesLoop :: "LatLng list \<Rightarrow> nat \<Rightarrow> bool" where
  "closesLoop smoothed i \<longleftrightarrow>
     haversine (smoothed ! i) (last smoothed) < 50 \<and> cumulativeDistance smoothed i > 20"

definition firstLoopStart :: "LatLng list \<Rightarrow> nat option" where
  "firstLoopStart smoothed =
     (if length smoothed > 10 then find (closesLoop smoothed) [0..<length smoothed - 10] else None)"


text \<open>
  Two notions for the proofs about the area: the summand of the shoelace sum, and the
  projection without the origin latitude.
\<close>

definition cross :: "real \<times> real \<Rightarrow> real \<times> real \<Rightarrow> real" where
  "cross a b = fst a * snd b - fst b * snd a"

definition planar :: "LatLng \<Rightarrow> real \<times> real" where
  "planar p = (6378137 * ((longitude p * pi) / 180), 6378137 * ((latitude p * pi) / 180))"

section \<open>Example data\<close>

definition pt :: "real \<Rightarrow> real \<Rightarrow> real \<Rightarrow> LatLng" where
  "pt la lo ts = \<lparr>latitude = la, longitude = lo, timestamp = ts\<rparr>"

text \<open>
  A square polygon with the corners \<open>(a, a)\<close> and \<open>(b, b)\<close>, and a territory of owner \<open>A\<close>
  on such a square of about 111 m.
\<close>

definition square :: "real \<Rightarrow> real \<Rightarrow> LatLng list" where
  "square a b =
     [\<lparr>latitude = a, longitude = a, timestamp = 0\<rparr>, \<lparr>latitude = a, longitude = b, timestamp = 0\<rparr>,
      \<lparr>latitude = b, longitude = b, timestamp = 0\<rparr>, \<lparr>latitude = b, longitude = a, timestamp = 0\<rparr>]"

definition home :: Territory where
  "home = \<lparr>terr_id = ''t1'', mode = Walk, polygon = square 0 0.001, createdAt = 1000,
           owners = [\<lparr>ownerId = ''A'', strength = 1\<rparr>]\<rparr>"

text \<open>A store that holds this territory: its owner object, its owners array and the territory object.\<close>

definition depot :: store where
  "depot =
     \<lparr>cells = (\<lambda>a. None)
        (0 \<mapsto> OwnerObj \<lparr>ownerId = ''A'', strength = 1\<rparr>,
         1 \<mapsto> ArrayObj [0],
         2 \<mapsto> TerrObj \<lparr>obj_id = ''t1'', obj_mode = Walk, obj_polygon = square 0 0.001,
                        obj_createdAt = 1000, obj_owners = 1\<rparr>),
      fresh = 3\<rparr>"

text \<open>
  A triangle at latitude 45 whose first and last points differ in latitude, and a block
  at the equator whose first and last points have the same latitude.
\<close>

definition triangle :: "LatLng list" where
  "triangle = [pt 45 0 0, pt 45 0.001 3000, pt 45.001 0.001 6000]"

definition block :: "LatLng list" where
  "block = [pt 0 0 0, pt 0.001 0 3000, pt 0.001 0.001 6000, pt 0 0.001 9000]"

text \<open>
  A ride of eighteen fixes, 0.0002 degrees (about 22 m) apart: up a meridian, around a
  block and back onto its own track; its smoothed path; and a provider state holding it.
\<close>

definition ride :: "LatLng list" where
  "ride =
     [pt (-0.0006) 0 0, pt (-0.0004) 0 3000, pt (-0.0002) 0 6000, pt 0 0 9000,
      pt 0.0002 0 12000, pt 0.0004 0 15000, pt 0.0006 0 18000, pt 0.0008 0 21000,
      pt 0.0008 0.0002 24000, pt 0.0008 0.0004 27000, pt 0.0006 0.0004 30000,
      pt 0.0004 0.0004 33000, pt 0.0002 0.0004 36000, pt 0 0.0004 39000,
      pt 0 0.0002 42000, pt 0 0 45000, pt 0.0002 0 48000, pt 0.0004 0 51000]"

definition smoothedRide :: "LatLng list" where
  "smoothedRide =
     [pt (-0.0005) 0 1500, pt (-0.0004) 0 3000, pt (-0.0002) 0 6000, pt 0 0 9000,
      pt 0.0002 0 12000, pt 0.0004 0 15000, pt 0.0006 0 18000,
      pt (0.0022 / 3) (0.0002 / 3) 21000, pt 0.0008 0.0002 24000,
      pt (0.0022 / 3) (0.001 / 3) 27000, pt 0.0006 0.0004 30000, pt 0.0004 0.0004 33000,
      pt 0.0002 0.0004 36000, pt (0.0002 / 3) (0.001 / 3) 39000, pt 0 0.0002 42000,
      pt (0.0002 / 3) (0.0002 / 3) 45000, pt 0.0002 0 48000, pt 0.0003 0 49500]"

definition rideState :: ProviderState where
  "rideState = \<lparr>path = ride, territories = [], capturedLoopCount = 0, lastCaptured = None\<rparr>"

text \<open>A walk up a meridian and back the same way, and its smoothed path.\<close>

definition outAndBack :: "LatLng list" where
  "outAndBack =
     [pt 0 0 0, pt 0.0002 0 3000, pt 0.0004 0 6000, pt 0.0006 0 9000, pt 0.0008 0 12000,
      pt 0.001 0 15000, pt 0.0012 0 18000, pt 0.001 0 21000, pt 0.0008 0 24000,
      pt 0.0006 0 27000, pt 0.0004 0 30000, pt 0.0002 0 33000, pt 0 0 36000]"

definition smoothedOutAndBack :: "LatLng list" where
  "smoothedOutAndBack =
     [pt 0.0001 0 1500, pt 0.0002 0 3000, pt 0.0004 0 6000, pt 0.0006 0 9000, pt 0.0008 0 12000,
      pt 0.001 0 15000, pt (0.0032 / 3) 0 18000, pt 0.001 0 21000, pt 0.0008 0 24000,
      pt 0.0006 0 27000, pt 0.0004 0 30000, pt 0.0002 0 33000, pt 0.0001 0 34500]"

definition walkState :: ProviderState where
  "walkState = \<lparr>path = outAndBack, territories = [home], capturedLoopCount = 2, lastCaptured = None\<rparr>"

section \<open>Properties of the arbitration step\<close>

lemmas arbitration_defs =
  capture_def arbitrateOwners_def myOwnership_def otherOwners_def totalOthersStrength_def Let_def

lemmas bbox_defs = bboxesOverlap_def bbox_def bboxStep_def Let_def

lemma myOwnership_None_iff: "myOwnership oid os = None \<longleftrightarrow> oid \<notin> ownerId ` set os"
  by (auto simp: myOwnership_def find_None_iff)

lemma ownerId_setMyStrength [simp]: "map ownerId (setMyStrength oid s os) = map ownerId os"
  by (induction os) auto

lemma length_setMyStrength [simp]: "length (setMyStrength oid s os) = length os"
  by (induction os) auto

lemma myOwnership_setMyStrength:
  "myOwnership oid (setMyStrength oid s os)
     = map_option (\<lambda>w. w\<lparr>strength := s\<rparr>) (myOwnership oid os)"
  by (induction os) (auto simp: myOwnership_def)

lemma otherOwners_setMyStrength [simp]:
  "otherOwners oid (setMyStrength oid s os) = otherOwners oid os"
  by (induction os) (auto simp: otherOwners_def)

lemma capture_exclusive:
  assumes "myOwnership oid os = Some mine" and "otherOwners oid os = []"
  shows "capture oid os = setMyStrength oid (min 2 (strength mine + 0.2)) os"
  using assms by (simp add: capture_def arbitrateOwners_def)

text \<open>
  Repeated captures by the only owner: the strength after \<open>n\<close> captures, by induction
  on \<open>n\<close> with the starting strength generalised.
\<close>

lemma capture_iterate:
  "s \<le> 2 \<Longrightarrow> (capture a ^^ n) [\<lparr>ownerId = a, strength = s\<rparr>]
     = [\<lparr>ownerId = a, strength = min 2 (s + real n / 5)\<rparr>]"
proof (induction n arbitrary: s)
  case 0
  then show ?case by simp
next
  case (Suc n)
  have step: "capture a [\<lparr>ownerId = a, strength = s\<rparr>]
                = [\<lparr>ownerId = a, strength = min 2 (s + 1 / 5)\<rparr>]"
    by (simp add: arbitration_defs)
  have "min 2 (s + 1 / 5) \<le> 2" by simp
  from Suc.IH [OF this]
  have "(capture a ^^ Suc n) [\<lparr>ownerId = a, strength = s\<rparr>]
          = [\<lparr>ownerId = a, strength = min 2 (min 2 (s + 1 / 5) + real n / 5)\<rparr>]"
    by (simp add: funpow_swap1 step)
  moreover have "min 2 (min 2 (s + 1 / 5) + real n / 5) = min 2 (s + real (Suc n) / 5)"
    by (simp add: min_def add_divide_distrib)
  ultimately show ?case by simp
qed

lemma distinct_arbitrateOwners:
  "distinct (map ownerId os) \<Longrightarrow> distinct (map ownerId (fst (arbitrateOwners oid os)))"
  by (auto simp: arbitrateOwners_def Let_def myOwnership_None_iff)

subsection \<open>The loop over the territories\<close>

lemma arbitrateTerritories_updated:
  "fst (arbitrateTerritories oid poly ts) =
     map (\<lambda>t. if bboxesOverlap (polygon t) poly
               then t\<lparr>owners := capture oid (owners t)\<rparr> else t) ts"
  by (induction ts) (auto simp: capture_def split: prod.splits)

lemma arbitrateTerritories_overlapped:
  "snd (snd (arbitrateTerritories oid poly ts))
     = list_ex (\<lambda>t. bboxesOverlap (polygon t) poly) ts"
  by (induction ts) (auto split: prod.splits)

lemma arbitrateTerritories_unchanged:
  "\<not> list_ex (\<lambda>t. bboxesOverlap (polygon t) poly) ts \<Longrightarrow>
     fst (snd (arbitrateTerritories oid poly ts)) = []"
  by (induction ts) (auto split: prod.splits)

lemma setTerritoriesUpdater_eq:
  "fst (setTerritoriesUpdater oid nt prev) =
     (if list_ex (\<lambda>t. bboxesOverlap (polygon t) (polygon nt)) prev
      then map (\<lambda>t. if bboxesOverlap (polygon t) (polygon nt)
                    then t\<lparr>owners := capture oid (owners t)\<rparr> else t) prev
      else nt # prev)"
proof -
  obtain u c ov where r: "arbitrateTerritories oid (polygon nt) prev = (u, c, ov)"
    by (cases "arbitrateTerritories oid (polygon nt) prev") auto
  have u: "u = map (\<lambda>t. if bboxesOverlap (polygon t) (polygon nt)
                         then t\<lparr>owners := capture oid (owners t)\<rparr> else t) prev"
    using arbitrateTerritories_updated [of oid "polygon nt" prev] r by simp
  have ov: "ov = list_ex (\<lambda>t. bboxesOverlap (polygon t) (polygon nt)) prev"
    using arbitrateTerritories_overlapped [of oid "polygon nt" prev] r by simp
  have same: "\<not> list_ex (\<lambda>t. bboxesOverlap (polygon t) (polygon nt)) prev \<Longrightarrow> u = prev"
    unfolding u by (induction prev) auto
  show ?thesis
    using same u by (auto simp: setTerritoriesUpdater_def r ov)
qed

lemma setTerritoriesUpdater_no_overlap:
  assumes "\<not> list_ex (\<lambda>t. bboxesOverlap (polygon t) (polygon nt)) prev"
  shows "setTerritoriesUpdater oid nt prev = (nt # prev, [], True)"
proof -
  obtain u c ov where r: "arbitrateTerritories oid (polygon nt) prev = (u, c, ov)"
    by (cases "arbitrateTerritories oid (polygon nt) prev") auto
  have ov: "\<not> ov"
    using arbitrateTerritories_overlapped [of oid "polygon nt" prev] r assms by simp
  have "fst (setTerritoriesUpdater oid nt prev) = nt # prev"
    using assms by (simp add: setTerritoriesUpdater_eq)
  then have u: "u = prev"
    using ov by (simp add: setTerritoriesUpdater_def r)
  have "c = []"
    using arbitrateTerritories_unchanged [of "polygon nt" prev oid] r assms by simp
  then show ?thesis
    using ov u by (simp add: setTerritoriesUpdater_def r)
qed

lemma setTerritoriesUpdater_flag:
  "snd (snd (setTerritoriesUpdater oid nt prev))
     = (\<not> list_ex (\<lambda>t. bboxesOverlap (polygon t) (polygon nt)) prev)"
  using arbitrateTerritories_overlapped [of oid "polygon nt" prev]
  by (auto simp: setTerritoriesUpdater_def split: prod.splits)

lemma setTerritoriesUpdater_single:
  assumes "bboxesOverlap (polygon t) poly"
  shows "fst (setTerritoriesUpdater oid (newTerr newId m poly now oid) [t])
           = [t\<lparr>owners := capture oid (owners t)\<rparr>]"
  using assms by (simp add: setTerritoriesUpdater_eq newTerr_def)

section \<open>Claims about the arbitration engine\<close>

lemma square_overlap: "bboxesOverlap (square 0 0.001) (square 0.0005 0.0015)"
  by (simp add: bbox_defs square_def)

lemma square_apart: "\<not> bboxesOverlap (square 0 0.001) (square 0.002 0.003)"
  by (simp add: bbox_defs square_def)

text \<open>
  Claim C2.  A territory \<open>t\<close> is owned by \<open>a\<close> alone at strength 1.0, and another owner
  \<open>b\<close> captures three polygons in turn whose bounding boxes each overlap the territory's.
  After the first capture the owners are \<open>a\<close> at 1.0 and \<open>b\<close> at 0.5; after the second
  \<open>b\<close> is at 1.0, which is not greater than the strength 1.0 of the others, so that both
  stay; after the third \<open>b\<close> alone is left, at strength 1.0.  No territory is added.
\<close>

theorem contest_then_claim_over:
  assumes "a \<noteq> b"
    and "owners t = [\<lparr>ownerId = a, strength = 1.0\<rparr>]"
    and "bboxesOverlap (polygon t) p1"
    and "bboxesOverlap (polygon t) p2"
    and "bboxesOverlap (polygon t) p3"
  shows "(let T1 = fst (setTerritoriesUpdater b (newTerr i1 m1 p1 n1 b) [t]);
              T2 = fst (setTerritoriesUpdater b (newTerr i2 m2 p2 n2 b) T1);
              T3 = fst (setTerritoriesUpdater b (newTerr i3 m3 p3 n3 b) T2)
          in T1 = [t\<lparr>owners := [\<lparr>ownerId = a, strength = 1.0\<rparr>, \<lparr>ownerId = b, strength = 0.5\<rparr>]\<rparr>]
           \<and> T2 = [t\<lparr>owners := [\<lparr>ownerId = a, strength = 1.0\<rparr>, \<lparr>ownerId = b, strength = 1.0\<rparr>]\<rparr>]
           \<and> \<not> 1.0 > totalOthersStrength [\<lparr>ownerId = a, strength = 1.0\<rparr>]
           \<and> T3 = [t\<lparr>owners := [\<lparr>ownerId = b, strength = 1.0\<rparr>]\<rparr>])"
proof -
  let ?o1 = "[\<lparr>ownerId = a, strength = 1\<rparr>, \<lparr>ownerId = b, strength = 1 / 2\<rparr>]"
  let ?o2 = "[\<lparr>ownerId = a, strength = 1\<rparr>, \<lparr>ownerId = b, strength = 1\<rparr>]"
  let ?o3 = "[\<lparr>ownerId = b, strength = 1\<rparr>]"
  have c1: "capture b (owners t) = ?o1"
    using assms(1) by (simp add: assms(2) arbitration_defs)
  have c2: "capture b ?o1 = ?o2"
    using assms(1) by (simp add: arbitration_defs)
  have c3: "capture b ?o2 = ?o3"
    using assms(1) by (simp add: arbitration_defs)
  have T1: "fst (setTerritoriesUpdater b (newTerr i1 m1 p1 n1 b) [t]) = [t\<lparr>owners := ?o1\<rparr>]"
    using setTerritoriesUpdater_single [OF assms(3)] by (simp add: c1)
  have T2: "fst (setTerritoriesUpdater b (newTerr i2 m2 p2 n2 b) [t\<lparr>owners := ?o1\<rparr>])
              = [t\<lparr>owners := ?o2\<rparr>]"
    using setTerritoriesUpdater_single [of "t\<lparr>owners := ?o1\<rparr>" p2] assms(4) by (simp add: c2)
  have T3: "fst (setTerritoriesUpdater b (newTerr i3 m3 p3 n3 b) [t\<lparr>owners := ?o2\<rparr>])
              = [t\<lparr>owners := ?o3\<rparr>]"
    using setTerritoriesUpdater_single [of "t\<lparr>owners := ?o2\<rparr>" p3] assms(5) by (simp add: c3)
  have tot: "\<not> 1.0 > totalOthersStrength [\<lparr>ownerId = a, strength = 1.0\<rparr>]"
    by (simp add: totalOthersStrength_def)
  show ?thesis
    unfolding Let_def T1 T2 T3 using tot by simp
qed

theorem contest_then_claim_over_witness:
  "(let T1 = fst (setTerritoriesUpdater ''B'' (newTerr ''n1'' Walk (square 0.0005 0.0015) 2000 ''B'') [home]);
        T2 = fst (setTerritoriesUpdater ''B'' (newTerr ''n2'' Run (square 0.0005 0.0015) 3000 ''B'') T1);
        T3 = fst (setTerritoriesUpdater ''B'' (newTerr ''n3'' Cycle (square 0.0005 0.0015) 4000 ''B'') T2)
    in map owners T1 = [[\<lparr>ownerId = ''A'', strength = 1\<rparr>, \<lparr>ownerId = ''B'', strength = 0.5\<rparr>]]
     \<and> map owners T2 = [[\<lparr>ownerId = ''A'', strength = 1\<rparr>, \<lparr>ownerId = ''B'', strength = 1\<rparr>]]
     \<and> map owners T3 = [[\<lparr>ownerId = ''B'', strength = 1\<rparr>]]
     \<and> map terr_id T3 = [''t1''])"
proof -
  have ne: "''A'' \<noteq> ''B''" by simp
  have ow: "owners home = [\<lparr>ownerId = ''A'', strength = 1.0\<rparr>]"
    by (simp add: home_def)
  have ov: "bboxesOverlap (polygon home) (square 0.0005 0.0015)"
    using square_overlap by (simp add: home_def)
  show ?thesis
    using contest_then_claim_over [OF ne ow ov ov ov, of "''n1''" Walk 2000 "''n2''" Run 3000 "''n3''" Cycle 4000]
    by (simp add: Let_def home_def cong: conj_cong)
qed

text \<open>
  Claim C3.  When the claimant's record \<open>mine\<close> is in the owners array and no other owner
  is, one capture sets the claimant's strength to \<open>min 2.0 (strength + 0.2)\<close>, which is at
  most 2.0, and changes nothing else.  From the single owner \<open>a\<close> at strength 1.0 the
  strength is at most 2.0 after any number \<open>k\<close> of captures, and it is 2.0 after six.
\<close>

theorem exclusive_strengthen_clamped:
  assumes "myOwnership oid os = Some mine" and "otherOwners oid os = []"
  shows "capture oid os = setMyStrength oid (min 2.0 (strength mine + 0.2)) os
       \<and> map_option strength (myOwnership oid (capture oid os))
            = Some (min 2.0 (strength mine + 0.2))
       \<and> min 2.0 (strength mine + 0.2) \<le> 2.0
       \<and> map ownerId ((capture a ^^ k) [\<lparr>ownerId = a, strength = 1.0\<rparr>]) = [a]
       \<and> list_all (\<lambda>w. strength w \<le> 2.0) ((capture a ^^ k) [\<lparr>ownerId = a, strength = 1.0\<rparr>])
       \<and> (capture a ^^ 6) [\<lparr>ownerId = a, strength = 1.0\<rparr>] = [\<lparr>ownerId = a, strength = 2.0\<rparr>]"
proof -
  have c: "capture oid os = setMyStrength oid (min 2.0 (strength mine + 0.2)) os"
    using capture_exclusive [OF assms] by simp
  have m: "map_option strength (myOwnership oid (capture oid os))
             = Some (min 2.0 (strength mine + 0.2))"
    by (simp add: c myOwnership_setMyStrength assms(1))
  have it: "(capture a ^^ n) [\<lparr>ownerId = a, strength = 1.0\<rparr>]
              = [\<lparr>ownerId = a, strength = min 2.0 (1.0 + 0.2 * real n)\<rparr>]" for n
    using capture_iterate [where s = 1 and a = a and n = n] by simp
  have six: "(capture a ^^ 6) [\<lparr>ownerId = a, strength = 1.0\<rparr>] = [\<lparr>ownerId = a, strength = 2.0\<rparr>]"
    using it [of 6] by simp
  have ids: "map ownerId ((capture a ^^ k) [\<lparr>ownerId = a, strength = 1.0\<rparr>]) = [a]"
    using it [of k] by simp
  have bound: "list_all (\<lambda>w. strength w \<le> 2.0) ((capture a ^^ k) [\<lparr>ownerId = a, strength = 1.0\<rparr>])"
    using it [of k] by simp
  show ?thesis
    using c m six ids bound by simp
qed

theorem exclusive_strengthen_clamped_witness:
  "myOwnership ''A'' [\<lparr>ownerId = ''A'', strength = 1.9\<rparr>] = Some \<lparr>ownerId = ''A'', strength = 1.9\<rparr>
   \<and> otherOwners ''A'' [\<lparr>ownerId = ''A'', strength = 1.9\<rparr>] = []
   \<and> capture ''A'' [\<lparr>ownerId = ''A'', strength = 1.9\<rparr>] = [\<lparr>ownerId = ''A'', strength = 2\<rparr>]
   \<and> (capture ''A'' ^^ 6) [\<lparr>ownerId = ''A'', strength = 1\<rparr>] = [\<lparr>ownerId = ''A'', strength = 2\<rparr>]"
proof -
  have h1: "myOwnership ''A'' [\<lparr>ownerId = ''A'', strength = 1.9\<rparr>]
              = Some \<lparr>ownerId = ''A'', strength = 1.9\<rparr>"
    by (simp add: myOwnership_def)
  have h2: "otherOwners ''A'' [\<lparr>ownerId = ''A'', strength = 1.9\<rparr>] = []"
    by (simp add: otherOwners_def)
  show ?thesis
    using h1 h2 exclusive_strengthen_clamped [OF h1 h2, where a = "''A''" and k = 6] by simp
qed

text \<open>
  Claim C4.  When no existing territory's bounding box overlaps the captured polygon's,
  the updater puts the new territory, owned by the claimant alone at strength 1.0, in
  front of the unchanged collection and records no change.  When some territory's box
  overlaps, the collection keeps its length: every overlapping territory gets the owners
  that the arbitration step gives it, every other territory stays as it is, and the new
  territory is not added.
\<close>

theorem new_territory_iff_no_overlap:
  "((\<forall>t \<in> set prev. \<not> bboxesOverlap (polygon t) poly) \<longrightarrow>
      setTerritoriesUpdater oid (newTerr newId m poly now oid) prev
        = (newTerr newId m poly now oid # prev, [], True)
      \<and> owners (newTerr newId m poly now oid) = [\<lparr>ownerId = oid, strength = 1.0\<rparr>])
   \<and> ((\<exists>t \<in> set prev. bboxesOverlap (polygon t) poly) \<longrightarrow>
      fst (setTerritoriesUpdater oid (newTerr newId m poly now oid) prev)
        = map (\<lambda>t. if bboxesOverlap (polygon t) poly
                    then t\<lparr>owners := fst (arbitrateOwners oid (owners t))\<rparr> else t) prev
      \<and> length (fst (setTerritoriesUpdater oid (newTerr newId m poly now oid) prev)) = length prev
      \<and> \<not> snd (snd (setTerritoriesUpdater oid (newTerr newId m poly now oid) prev)))"
proof -
  have p: "polygon (newTerr newId m poly now oid) = poly"
    by (simp add: newTerr_def)
  have o: "owners (newTerr newId m poly now oid) = [\<lparr>ownerId = oid, strength = 1.0\<rparr>]"
    by (simp add: newTerr_def)
  show ?thesis
    using setTerritoriesUpdater_no_overlap [of "newTerr newId m poly now oid" prev oid]
      setTerritoriesUpdater_eq [of oid "newTerr newId m poly now oid" prev]
      setTerritoriesUpdater_flag [of oid "newTerr newId m poly now oid" prev] o
    unfolding p by (simp add: capture_def list_ex_iff)
qed

theorem new_territory_iff_no_overlap_witness:
  "setTerritoriesUpdater ''B'' (newTerr ''n1'' Run (square 0.002 0.003) 2000 ''B'') [home]
     = ([\<lparr>terr_id = ''n1'', mode = Run, polygon = square 0.002 0.003, createdAt = 2000,
          owners = [\<lparr>ownerId = ''B'', strength = 1\<rparr>]\<rparr>, home], [], True)
   \<and> fst (setTerritoriesUpdater ''B'' (newTerr ''n1'' Run (square 0.0005 0.0015) 2000 ''B'') [home])
     = [home\<lparr>owners := [\<lparr>ownerId = ''A'', strength = 1\<rparr>, \<lparr>ownerId = ''B'', strength = 0.5\<rparr>]\<rparr>]"
proof -
  have apart: "\<forall>t \<in> set [home]. \<not> bboxesOverlap (polygon t) (square 0.002 0.003)"
    using square_apart by (simp add: home_def)
  have near: "\<exists>t \<in> set [home]. bboxesOverlap (polygon t) (square 0.0005 0.0015)"
    using square_overlap by (simp add: home_def)
  have cap: "fst (arbitrateOwners ''B'' (owners home))
               = [\<lparr>ownerId = ''A'', strength = 1\<rparr>, \<lparr>ownerId = ''B'', strength = 0.5\<rparr>]"
    by (simp add: home_def arbitration_defs)
  show ?thesis
    using apart near cap square_overlap
      new_territory_iff_no_overlap [of "[home]" "square 0.002 0.003" "''B''" "''n1''" Run 2000]
      new_territory_iff_no_overlap [of "[home]" "square 0.0005 0.0015" "''B''" "''n1''" Run 2000]
    by (simp add: newTerr_def home_def)
qed

text \<open>
  Claim C9.  If the owner ids of a territory's owners array are pairwise distinct, they
  still are after one arbitration step by any claimant, whichever branch is taken.
\<close>

theorem owners_stay_unique:
  assumes "distinct (map ownerId (owners t))"
  shows "distinct (map ownerId (fst (arbitrateOwners oid (owners t))))"
  using assms by (rule distinct_arbitrateOwners)

theorem owners_stay_unique_witness:
  "distinct (map ownerId (owners home))
   \<and> fst (arbitrateOwners ''B'' (owners home))
       = [\<lparr>ownerId = ''A'', strength = 1\<rparr>, \<lparr>ownerId = ''B'', strength = 0.5\<rparr>]
   \<and> distinct (map ownerId (fst (arbitrateOwners ''B'' (owners home))))"
proof -
  have d: "distinct (map ownerId (owners home))"
    by (simp add: home_def)
  have c: "fst (arbitrateOwners ''B'' (owners home))
             = [\<lparr>ownerId = ''A'', strength = 1\<rparr>, \<lparr>ownerId = ''B'', strength = 0.5\<rparr>]"
    by (simp add: home_def arbitration_defs)
  show ?thesis
    using d c owners_stay_unique [OF d, of "''B''"] by simp
qed

text \<open>Three runs of captures, evaluated: by the creator, by two rivals, and by the creator again.\<close>

lemma six_captures_by_B:
  "foldl (\<lambda>os c. capture c os) [\<lparr>ownerId = ''B'', strength = 1.0\<rparr>]
     [''B'', ''B'', ''B'', ''B'', ''B'', ''B''] = [\<lparr>ownerId = ''B'', strength = 2.0\<rparr>]"
  by (simp add: arbitration_defs)

lemma rivals_enter:
  "foldl (\<lambda>os c. capture c os) [\<lparr>ownerId = ''B'', strength = 2.0\<rparr>]
     [''A'', ''C'', ''A'', ''A'', ''A'', ''A'']
   = [\<lparr>ownerId = ''B'', strength = 2.0\<rparr>, \<lparr>ownerId = ''A'', strength = 2.5\<rparr>,
      \<lparr>ownerId = ''C'', strength = 0.5\<rparr>]"
  by (simp add: arbitration_defs)

lemma contesting_capture_by_B:
  "capture ''B'' [\<lparr>ownerId = ''B'', strength = 2.0\<rparr>, \<lparr>ownerId = ''A'', strength = 2.5\<rparr>,
                  \<lparr>ownerId = ''C'', strength = 0.5\<rparr>]
   = [\<lparr>ownerId = ''B'', strength = 2.5\<rparr>, \<lparr>ownerId = ''A'', strength = 2.5\<rparr>,
      \<lparr>ownerId = ''C'', strength = 0.5\<rparr>]"
  by (simp add: arbitration_defs)

text \<open>
  Claim C10.  A territory created by \<open>B\<close> is captured six more times by \<open>B\<close>, then
  entered by \<open>A\<close> and by \<open>C\<close>, then captured four more times by \<open>A\<close>.  In the state
  reached, \<open>B\<close> is at strength 2.0 and its rivals together at 3.0.  The next capture by
  \<open>B\<close> takes the contesting branch, which adds 0.5 without a clamp: \<open>B\<close> is stored at 2.5.
\<close>

theorem contesting_increment_exceeds_cap:
  "(let os = foldl (\<lambda>os c. capture c os) (owners (newTerr ''t'' Walk (square 0 0.001) 0 ''B''))
               [''B'', ''B'', ''B'', ''B'', ''B'', ''B'', ''A'', ''C'', ''A'', ''A'', ''A'', ''A'']
    in map_option strength (myOwnership ''B'' os) = Some 2.0
       \<and> otherOwners ''B'' os \<noteq> []
       \<and> totalOthersStrength (otherOwners ''B'' os) > 2.5
       \<and> map_option strength (myOwnership ''B'' (capture ''B'' os)) = Some 2.5
       \<and> (2.5 :: real) > 2.0)"
proof -
  let ?s = "[\<lparr>ownerId = ''B'', strength = 2.0\<rparr>, \<lparr>ownerId = ''A'', strength = 2.5\<rparr>,
             \<lparr>ownerId = ''C'', strength = 0.5\<rparr>]"
  have "foldl (\<lambda>os c. capture c os) [\<lparr>ownerId = ''B'', strength = 1.0\<rparr>]
          ([''B'', ''B'', ''B'', ''B'', ''B'', ''B''] @ [''A'', ''C'', ''A'', ''A'', ''A'', ''A''])
        = ?s"
    unfolding foldl_append six_captures_by_B rivals_enter ..
  then have os: "foldl (\<lambda>os c. capture c os) (owners (newTerr ''t'' Walk (square 0 0.001) 0 ''B''))
          [''B'', ''B'', ''B'', ''B'', ''B'', ''B'', ''A'', ''C'', ''A'', ''A'', ''A'', ''A''] = ?s"
    by (simp add: newTerr_def)
  have before: "myOwnership ''B'' ?s = Some \<lparr>ownerId = ''B'', strength = 2.0\<rparr>"
    by (simp add: myOwnership_def)
  have others: "otherOwners ''B'' ?s
                  = [\<lparr>ownerId = ''A'', strength = 2.5\<rparr>, \<lparr>ownerId = ''C'', strength = 0.5\<rparr>]"
    by (simp add: otherOwners_def)
  have tot: "totalOthersStrength [\<lparr>ownerId = ''A'', strength = 2.5\<rparr>, \<lparr>ownerId = ''C'', strength = 0.5\<rparr>] = 3"
    by (simp add: totalOthersStrength_def)
  have after: "myOwnership ''B'' (capture ''B'' ?s) = Some \<lparr>ownerId = ''B'', strength = 2.5\<rparr>"
    unfolding contesting_capture_by_B by (simp add: myOwnership_def)
  show ?thesis
    unfolding Let_def os before others tot after by simp
qed

section \<open>The decay projector allocates and never writes\<close>

lemma extendsStore_refl: "extendsStore s s"
  by (simp add: extendsStore_def)

lemma extendsStore_trans: "extendsStore s s1 \<Longrightarrow> extendsStore s1 s2 \<Longrightarrow> extendsStore s s2"
  by (auto simp: extendsStore_def)

lemma extendsStore_alloc: "alloc v s = (r, s') \<Longrightarrow> extendsStore s s'"
  by (auto simp: alloc_def extendsStore_def)

lemma closedStore_alloc: "closedStore s \<Longrightarrow> alloc v s = (r, s') \<Longrightarrow> closedStore s'"
  by (auto simp: alloc_def closedStore_def less_Suc_eq)

lemma alloc_read: "alloc v s = (r, s') \<Longrightarrow> cells s' r = Some v \<and> r = fresh s"
  by (auto simp: alloc_def)

lemma extendsStore_cell:
  "closedStore s \<Longrightarrow> extendsStore s s' \<Longrightarrow> cells s a = Some v \<Longrightarrow> cells s' a = Some v"
  by (auto simp: closedStore_def extendsStore_def)

lemma spreadOwners_extendsStore:
  "spreadOwners d rs s = Some (rs', s') \<Longrightarrow> extendsStore s s' \<and> (closedStore s \<longrightarrow> closedStore s')"
proof (induction rs arbitrary: s rs' s')
  case Nil
  then show ?case by (simp add: extendsStore_refl)
next
  case (Cons r rs)
  from Cons.prems obtain ow s1 rs1 where
    c: "cells s r = Some (OwnerObj ow)"
    and a: "alloc (OwnerObj (ow\<lparr>strength := strength ow * d\<rparr>)) s = (fresh s, s1)"
    and rec: "spreadOwners d rs s1 = Some (rs1, s')"
    by (auto simp: alloc_def split: option.splits obj.splits)
  have "extendsStore s s1" using a by (rule extendsStore_alloc)
  moreover have "extendsStore s1 s' \<and> (closedStore s1 \<longrightarrow> closedStore s')"
    using rec by (rule Cons.IH)
  moreover have "closedStore s \<longrightarrow> closedStore s1"
    using a closedStore_alloc by blast
  ultimately show ?case
    using extendsStore_trans by blast
qed

lemma readOwners_extendsStore:
  "closedStore s \<Longrightarrow> extendsStore s s' \<Longrightarrow> readOwners s rs = Some os \<Longrightarrow> readOwners s' rs = Some os"
proof (induction rs arbitrary: os)
  case Nil
  then show ?case by simp
next
  case (Cons r rs)
  from Cons.prems(3) obtain ow os1 where
    c: "cells s r = Some (OwnerObj ow)" and r: "readOwners s rs = Some os1" and os: "os = ow # os1"
    by (auto split: option.splits obj.splits)
  have "cells s' r = Some (OwnerObj ow)"
    using Cons.prems(1,2) c by (rule extendsStore_cell)
  then show ?case
    using Cons.IH [OF Cons.prems(1,2) r] os by simp
qed

lemma spreadOwners_reads:
  assumes "closedStore s" and "readOwners s rs = Some os"
  shows "\<exists>rs' s'. spreadOwners d rs s = Some (rs', s')
           \<and> readOwners s' rs' = Some (map (\<lambda>w. w\<lparr>strength := strength w * d\<rparr>) os)"
  using assms
proof (induction rs arbitrary: s os)
  case Nil
  then show ?case by simp
next
  case (Cons r rs)
  from Cons.prems(2) obtain ow os1 where
    c: "cells s r = Some (OwnerObj ow)" and r: "readOwners s rs = Some os1" and os: "os = ow # os1"
    by (auto split: option.splits obj.splits)
  obtain s1 where a: "alloc (OwnerObj (ow\<lparr>strength := strength ow * d\<rparr>)) s = (fresh s, s1)"
    by (simp add: alloc_def)
  have e1: "extendsStore s s1" using a by (rule extendsStore_alloc)
  have c1: "closedStore s1" using Cons.prems(1) a by (rule closedStore_alloc)
  have r1: "readOwners s1 rs = Some os1"
    using Cons.prems(1) e1 r by (rule readOwners_extendsStore)
  from Cons.IH [OF c1 r1] obtain rs' s' where
    sp: "spreadOwners d rs s1 = Some (rs', s')"
    and rd: "readOwners s' rs' = Some (map (\<lambda>w. w\<lparr>strength := strength w * d\<rparr>) os1)"
    by blast
  have "extendsStore s1 s'" using spreadOwners_extendsStore [OF sp] by simp
  moreover have "cells s1 (fresh s) = Some (OwnerObj (ow\<lparr>strength := strength ow * d\<rparr>))"
    using alloc_read [OF a] by simp
  ultimately have "cells s' (fresh s) = Some (OwnerObj (ow\<lparr>strength := strength ow * d\<rparr>))"
    using c1 by (rule extendsStore_cell [rotated])
  then show ?case
    using c a sp rd os by simp
qed


lemma decayedTerritoriesOnStore_extendsStore:
  "decayedTerritoriesOnStore now rs s = Some (rs', s') \<Longrightarrow> extendsStore s s' \<and> (closedStore s \<longrightarrow> closedStore s')"
proof (induction rs arbitrary: s rs' s')
  case Nil
  then show ?case by (simp add: extendsStore_refl)
next
  case (Cons r rs)
  show ?case
  proof (cases "\<exists>t ors. cells s r = Some (TerrObj t) \<and> cells s (obj_owners t) = Some (ArrayObj ors)")
    case False
    then have "decayedTerritoriesOnStore now (r # rs) s = decayedTerritoriesOnStore now rs s"
      by (auto split: option.splits obj.splits)
    then show ?thesis using Cons by simp
  next
    case True
    then obtain t ors where
      t: "cells s r = Some (TerrObj t)" and ors: "cells s (obj_owners t) = Some (ArrayObj ors)"
      by blast
    define d where "d = (1 - DAILY_DECAY_RATE) powr (max 0 ((now - obj_createdAt t) / (1000 * 60 * 60 * 24)))"
    from Cons.prems t ors obtain ors' s1 s2 s3 rs1 where
      sp: "spreadOwners d ors s = Some (ors', s1)"
      and a1: "alloc (ArrayObj ors') s1 = (fresh s1, s2)"
      and a2: "alloc (TerrObj (t\<lparr>obj_owners := fresh s1\<rparr>)) s2 = (fresh s2, s3)"
      and rec: "decayedTerritoriesOnStore now rs s3 = Some (rs1, s')"
      by (auto simp: Let_def d_def alloc_def split: option.splits)
    have "extendsStore s s1 \<and> (closedStore s \<longrightarrow> closedStore s1)"
      using sp by (rule spreadOwners_extendsStore)
    moreover have "extendsStore s1 s2" "closedStore s1 \<longrightarrow> closedStore s2"
      using a1 extendsStore_alloc closedStore_alloc by blast+
    moreover have "extendsStore s2 s3" "closedStore s2 \<longrightarrow> closedStore s3"
      using a2 extendsStore_alloc closedStore_alloc by blast+
    moreover have "extendsStore s3 s' \<and> (closedStore s3 \<longrightarrow> closedStore s')"
      using rec by (rule Cons.IH)
    ultimately show ?thesis
      using extendsStore_trans by blast
  qed
qed

lemma readTerritory_extendsStore:
  assumes "closedStore s" and "extendsStore s s'" and "readTerritory s r = Some t"
  shows "readTerritory s' r = Some t"
proof -
  from assms(3) obtain ob ors os where
    c: "cells s r = Some (TerrObj ob)" and a: "cells s (obj_owners ob) = Some (ArrayObj ors)"
    and o: "readOwners s ors = Some os"
    and t: "t = \<lparr>terr_id = obj_id ob, mode = obj_mode ob, polygon = obj_polygon ob,
                  createdAt = obj_createdAt ob, owners = os\<rparr>"
    by (auto simp: readTerritory_def split: option.splits obj.splits)
  have "cells s' r = Some (TerrObj ob)" "cells s' (obj_owners ob) = Some (ArrayObj ors)"
    using assms(1,2) c a extendsStore_cell by blast+
  moreover have "readOwners s' ors = Some os"
    using assms(1,2) o by (rule readOwners_extendsStore)
  ultimately show ?thesis
    by (simp add: readTerritory_def t)
qed

lemma readTerritories_extendsStore:
  "closedStore s \<Longrightarrow> extendsStore s s' \<Longrightarrow> readTerritories s rs = Some ts \<Longrightarrow> readTerritories s' rs = Some ts"
proof (induction rs arbitrary: ts)
  case Nil
  then show ?case by simp
next
  case (Cons r rs)
  from Cons.prems(3) obtain t ts1 where
    t: "readTerritory s r = Some t" and r: "readTerritories s rs = Some ts1" and ts: "ts = t # ts1"
    by (auto split: option.splits)
  have "readTerritory s' r = Some t"
    using Cons.prems(1,2) t by (rule readTerritory_extendsStore)
  then show ?case
    using Cons.IH [OF Cons.prems(1,2) r] ts by simp
qed

lemma decayedTerritoriesOnStore_reads:
  assumes "closedStore s" and "readTerritories s rs = Some ts"
  shows "\<exists>rs' s'. decayedTerritoriesOnStore now rs s = Some (rs', s')
           \<and> readTerritories s' rs' = Some (decayedTerritories now ts)"
  using assms
proof (induction rs arbitrary: s ts)
  case Nil
  then show ?case by (simp add: decayedTerritories_def)
next
  case (Cons r rs)
  from Cons.prems(2) obtain t ts1 where
    rt: "readTerritory s r = Some t" and rr: "readTerritories s rs = Some ts1" and ts: "ts = t # ts1"
    by (auto split: option.splits)
  from rt obtain ob ors os where
    c: "cells s r = Some (TerrObj ob)" and a: "cells s (obj_owners ob) = Some (ArrayObj ors)"
    and o: "readOwners s ors = Some os"
    and t: "t = \<lparr>terr_id = obj_id ob, mode = obj_mode ob, polygon = obj_polygon ob,
                  createdAt = obj_createdAt ob, owners = os\<rparr>"
    by (auto simp: readTerritory_def split: option.splits obj.splits)
  define d where "d = (1 - DAILY_DECAY_RATE) powr (max 0 ((now - obj_createdAt ob) / (1000 * 60 * 60 * 24)))"
  from spreadOwners_reads [OF Cons.prems(1) o, of d] obtain ors' s1 where
    sp: "spreadOwners d ors s = Some (ors', s1)"
    and ro: "readOwners s1 ors' = Some (map (\<lambda>w. w\<lparr>strength := strength w * d\<rparr>) os)"
    by blast
  have e1: "extendsStore s s1" and c1: "closedStore s1"
    using spreadOwners_extendsStore [OF sp] Cons.prems(1) by simp_all
  obtain s2 where a1: "alloc (ArrayObj ors') s1 = (fresh s1, s2)"
    by (simp add: alloc_def)
  have e2: "extendsStore s1 s2" and c2: "closedStore s2"
    using a1 c1 extendsStore_alloc closedStore_alloc by blast+
  obtain s3 where a2: "alloc (TerrObj (ob\<lparr>obj_owners := fresh s1\<rparr>)) s2 = (fresh s2, s3)"
    by (simp add: alloc_def)
  have e3: "extendsStore s2 s3" and c3: "closedStore s3"
    using a2 c2 extendsStore_alloc closedStore_alloc by blast+
  have e03: "extendsStore s s3"
    using e1 e2 e3 extendsStore_trans by blast
  have "readTerritories s3 rs = Some ts1"
    using Cons.prems(1) e03 rr by (rule readTerritories_extendsStore)
  from Cons.IH [OF c3 this] obtain rs' s' where
    rec: "decayedTerritoriesOnStore now rs s3 = Some (rs', s')"
    and rd: "readTerritories s' rs' = Some (decayedTerritories now ts1)"
    by blast
  have e4: "extendsStore s3 s'"
    using decayedTerritoriesOnStore_extendsStore [OF rec] by simp
  have new3: "readTerritory s3 (fresh s2)
                = Some \<lparr>terr_id = obj_id ob, mode = obj_mode ob, polygon = obj_polygon ob,
                        createdAt = obj_createdAt ob,
                        owners = map (\<lambda>w. w\<lparr>strength := strength w * d\<rparr>) os\<rparr>"
  proof -
    have "cells s3 (fresh s2) = Some (TerrObj (ob\<lparr>obj_owners := fresh s1\<rparr>))"
      using alloc_read [OF a2] by simp
    moreover have "cells s2 (fresh s1) = Some (ArrayObj ors')"
      using alloc_read [OF a1] by simp
    then have "cells s3 (fresh s1) = Some (ArrayObj ors')"
      using c2 e3 extendsStore_cell by blast
    moreover have "readOwners s3 ors' = Some (map (\<lambda>w. w\<lparr>strength := strength w * d\<rparr>) os)"
      using c1 extendsStore_trans [OF e2 e3] ro by (rule readOwners_extendsStore)
    ultimately show ?thesis
      by (simp add: readTerritory_def)
  qed
  have new: "readTerritory s' (fresh s2)
                = Some \<lparr>terr_id = obj_id ob, mode = obj_mode ob, polygon = obj_polygon ob,
                        createdAt = obj_createdAt ob,
                        owners = map (\<lambda>w. w\<lparr>strength := strength w * d\<rparr>) os\<rparr>"
    using c3 e4 new3 by (rule readTerritory_extendsStore)
  have run: "decayedTerritoriesOnStore now (r # rs) s = Some (fresh s2 # rs', s')"
    using c a sp a1 a2 rec by (simp add: Let_def d_def)
  have "decayedTerritories now ts
          = \<lparr>terr_id = obj_id ob, mode = obj_mode ob, polygon = obj_polygon ob,
               createdAt = obj_createdAt ob,
               owners = map (\<lambda>w. w\<lparr>strength := strength w * d\<rparr>) os\<rparr> # decayedTerritories now ts1"
    by (simp add: decayedTerritories_def ts t d_def Let_def)
  then show ?case
    using run new rd by simp
qed

section \<open>Claims about smoothing and decay\<close>

lemmas smooth_defs = smoothPath_def smoothPoint_def mathRound_def Let_def

text \<open>
  The window of the inner loop is never empty and stays inside the array, so that the
  division by \<open>n\<close> and the reads \<open>points[j]\<close> of \<open>smoothPoint\<close> are the source's.
\<close>

lemma window_in_range:
  assumes "i < length points" and "0 \<le> h"
  shows "set (map nat [max 0 (int i - h) .. min (int (length points) - 1) (int i + h)])
           \<subseteq> {..<length points}
       \<and> map nat [max 0 (int i - h) .. min (int (length points) - 1) (int i + h)] \<noteq> []"
  using assms by auto

text \<open>
  Claim C8.  For every path and every window size the smoothed path has the length of the
  path, and a path of at most two points is returned as it is.
\<close>

theorem smoothPath_length_and_short:
  "length (smoothPath points windowSize) = length points
   \<and> (length points \<le> 2 \<longrightarrow> smoothPath points windowSize = points)"
  by (simp add: smoothPath_def Let_def)

theorem smoothPath_length_and_short_witness:
  "length [pt 0 0 0, pt 3 0 3001] \<le> 2
   \<and> smoothPath [pt 0 0 0, pt 3 0 3001] 3 = [pt 0 0 0, pt 3 0 3001]
   \<and> smoothPath [pt 0 0 0, pt 3 0 3001, pt 3 6 6000] 3
       = [pt (3 / 2) 0 1501, pt 2 2 3000, pt 3 3 4501]
   \<and> length (smoothPath [pt 0 0 0, pt 3 0 3001, pt 3 6 6000] 3) = 3"
proof -
  have sm: "smoothPath [pt 0 0 0, pt 3 0 3001, pt 3 6 6000] 3
              = [pt (3 / 2) 0 1501, pt 2 2 3000, pt 3 3 4501]"
    by (simp add: smooth_defs pt_def upt_rec upto_rec1)
  show ?thesis
    using smoothPath_length_and_short [of "[pt 0 0 0, pt 3 0 3001]" 3]
      smoothPath_length_and_short [of "[pt 0 0 0, pt 3 0 3001, pt 3 6 6000]" 3] sm
    by simp
qed

text \<open>
  Claim C6.  The projector maps the stored collection to a new one of the same length in
  which every territory keeps its id, mode, polygon, creation time and owner ids, and
  every owner's strength is the stored strength times
  \<open>(1 - 0.02) powr max 0 ((now - createdAt) / 86400000)\<close>.  The factor is 1 when \<open>now\<close> is the
  creation time, and the territory is then shown as stored; it is \<open>0.98 ^ 35\<close> after 35
  days, and always positive and at most 1.  On a store of objects the projector only
  allocates: run on the references of stored territories, it returns references to new
  objects that hold the decayed collection, while every object of the store it started
  from is unchanged, so that the stored territories and strengths read as before.
\<close>

theorem decay_is_a_view:
  "(decayedTerritories now ts
      = map (\<lambda>t. t\<lparr>owners := map (\<lambda>w. w\<lparr>strength := strength w * decayFactor now t\<rparr>) (owners t)\<rparr>) ts
    \<and> decayFactor now t = (1 - 0.02) powr max 0 ((now - createdAt t) / 86400000)
    \<and> length (decayedTerritories now ts) = length ts
    \<and> map terr_id (decayedTerritories now ts) = map terr_id ts
    \<and> map polygon (decayedTerritories now ts) = map polygon ts
    \<and> map createdAt (decayedTerritories now ts) = map createdAt ts
    \<and> map mode (decayedTerritories now ts) = map mode ts
    \<and> map (\<lambda>t. map ownerId (owners t)) (decayedTerritories now ts)
        = map (\<lambda>t. map ownerId (owners t)) ts
    \<and> map (\<lambda>t. map strength (owners t)) (decayedTerritories now ts)
        = map (\<lambda>t. map (\<lambda>w. strength w * decayFactor now t) (owners t)) ts
    \<and> decayFactor (createdAt t) t = 1.0
    \<and> decayedTerritories (createdAt t) [t] = [t]
    \<and> decayFactor (createdAt t + 35 * 86400000) t = 0.98 ^ 35
    \<and> 0 < decayFactor now t \<and> decayFactor now t \<le> 1)
   \<and> (closedStore s \<and> readTerritories s rs = Some stored \<longrightarrow>
        (\<exists>rs' s'. decayedTerritoriesOnStore now rs s = Some (rs', s')
           \<and> readTerritories s' rs' = Some (decayedTerritories now stored)
           \<and> readTerritories s' rs = Some stored
           \<and> (\<forall>a. cells s a \<noteq> None \<longrightarrow> cells s' a = cells s a)))"
proof (rule conjI)
  have eq: "decayedTerritories now ts
     = map (\<lambda>t. t\<lparr>owners := map (\<lambda>w. w\<lparr>strength := strength w * decayFactor now t\<rparr>) (owners t)\<rparr>) ts"
    by (simp add: decayedTerritories_def decayFactor_def DAILY_DECAY_RATE_def Let_def)
  have f: "decayFactor now t = (1 - 0.02) powr max 0 ((now - createdAt t) / 86400000)"
    by (simp add: decayFactor_def)
  have one: "decayFactor (createdAt t) t = 1.0"
    by (simp add: decayFactor_def)
  have same: "decayedTerritories (createdAt t) [t] = [t]"
    by (simp add: decayedTerritories_def DAILY_DECAY_RATE_def Let_def)
  have fields: "length (decayedTerritories now ts) = length ts
     \<and> map terr_id (decayedTerritories now ts) = map terr_id ts
     \<and> map polygon (decayedTerritories now ts) = map polygon ts
     \<and> map createdAt (decayedTerritories now ts) = map createdAt ts
     \<and> map mode (decayedTerritories now ts) = map mode ts
     \<and> map (\<lambda>t. map ownerId (owners t)) (decayedTerritories now ts)
         = map (\<lambda>t. map ownerId (owners t)) ts
     \<and> map (\<lambda>t. map strength (owners t)) (decayedTerritories now ts)
         = map (\<lambda>t. map (\<lambda>w. strength w * decayFactor now t) (owners t)) ts"
    unfolding eq by (simp add: comp_def)
  have later: "decayFactor (createdAt t + 35 * 86400000) t = 0.98 ^ 35"
    by (simp add: decayFactor_def powr_numeral)
  have pos: "0 < decayFactor now t"
    by (simp add: decayFactor_def)
  have le: "decayFactor now t \<le> 1"
    unfolding decayFactor_def by (rule powr_le1) simp_all
  show "decayedTerritories now ts
      = map (\<lambda>t. t\<lparr>owners := map (\<lambda>w. w\<lparr>strength := strength w * decayFactor now t\<rparr>) (owners t)\<rparr>) ts
    \<and> decayFactor now t = (1 - 0.02) powr max 0 ((now - createdAt t) / 86400000)
    \<and> length (decayedTerritories now ts) = length ts
    \<and> map terr_id (decayedTerritories now ts) = map terr_id ts
    \<and> map polygon (decayedTerritories now ts) = map polygon ts
    \<and> map createdAt (decayedTerritories now ts) = map createdAt ts
    \<and> map mode (decayedTerritories now ts) = map mode ts
    \<and> map (\<lambda>t. map ownerId (owners t)) (decayedTerritories now ts)
        = map (\<lambda>t. map ownerId (owners t)) ts
    \<and> map (\<lambda>t. map strength (owners t)) (decayedTerritories now ts)
        = map (\<lambda>t. map (\<lambda>w. strength w * decayFactor now t) (owners t)) ts
    \<and> decayFactor (createdAt t) t = 1.0
    \<and> decayedTerritories (createdAt t) [t] = [t]
    \<and> decayFactor (createdAt t + 35 * 86400000) t = 0.98 ^ 35
    \<and> 0 < decayFactor now t \<and> decayFactor now t \<le> 1"
    using eq f one same fields later pos le by blast
next
  show "closedStore s \<and> readTerritories s rs = Some stored \<longrightarrow>
        (\<exists>rs' s'. decayedTerritoriesOnStore now rs s = Some (rs', s')
           \<and> readTerritories s' rs' = Some (decayedTerritories now stored)
           \<and> readTerritories s' rs = Some stored
           \<and> (\<forall>a. cells s a \<noteq> None \<longrightarrow> cells s' a = cells s a))"
  proof
    assume "closedStore s \<and> readTerritories s rs = Some stored"
    then have c: "closedStore s" and r: "readTerritories s rs = Some stored"
      by simp_all
    from decayedTerritoriesOnStore_reads [OF c r, of now] obtain rs' s' where
      run: "decayedTerritoriesOnStore now rs s = Some (rs', s')"
      and new: "readTerritories s' rs' = Some (decayedTerritories now stored)"
      by blast
    have e: "extendsStore s s'"
      using decayedTerritoriesOnStore_extendsStore [OF run] by simp
    have old: "readTerritories s' rs = Some stored"
      using c e r by (rule readTerritories_extendsStore)
    have "\<forall>a. cells s a \<noteq> None \<longrightarrow> cells s' a = cells s a"
      using c e by (auto simp: closedStore_def extendsStore_def)
    then show "\<exists>rs' s'. decayedTerritoriesOnStore now rs s = Some (rs', s')
           \<and> readTerritories s' rs' = Some (decayedTerritories now stored)
           \<and> readTerritories s' rs = Some stored
           \<and> (\<forall>a. cells s a \<noteq> None \<longrightarrow> cells s' a = cells s a)"
      using run new old by blast
  qed
qed

theorem decay_is_a_view_witness:
  "closedStore depot
   \<and> readTerritories depot [2] = Some [home]
   \<and> (\<exists>rs' s'. decayedTerritoriesOnStore 86401000 [2] depot = Some (rs', s')
         \<and> readTerritories s' rs' = Some [home\<lparr>owners := [\<lparr>ownerId = ''A'', strength = 0.98\<rparr>]\<rparr>]
         \<and> readTerritories s' [2] = Some [home]
         \<and> cells s' 0 = Some (OwnerObj \<lparr>ownerId = ''A'', strength = 1\<rparr>))"
proof -
  have c: "closedStore depot"
    by (simp add: closedStore_def depot_def)
  have r: "readTerritories depot [2] = Some [home]"
    by (simp add: readTerritory_def depot_def home_def)
  have d: "decayedTerritories 86401000 [home]
             = [home\<lparr>owners := [\<lparr>ownerId = ''A'', strength = 0.98\<rparr>]\<rparr>]"
    by (simp add: decayedTerritories_def DAILY_DECAY_RATE_def home_def Let_def)
  have z: "cells depot 0 = Some (OwnerObj \<lparr>ownerId = ''A'', strength = 1\<rparr>)"
    by (simp add: depot_def)
  from decay_is_a_view [where now = 86401000 and s = depot and rs = "[2]" and stored = "[home]",
      THEN conjunct2] c r
  obtain rs' s' where
    run: "decayedTerritoriesOnStore 86401000 [2] depot = Some (rs', s')"
    and new: "readTerritories s' rs' = Some (decayedTerritories 86401000 [home])"
    and old: "readTerritories s' [2] = Some [home]"
    and frame: "\<forall>a. cells depot a \<noteq> None \<longrightarrow> cells s' a = cells depot a"
    by blast
  have "cells s' 0 = Some (OwnerObj \<lparr>ownerId = ''A'', strength = 1\<rparr>)"
    using frame z by simp
  then show ?thesis
    using c r run new old unfolding d by blast
qed

section \<open>Claims about the polygon area\<close>

text \<open>The shoelace loop as a sum over the indices.\<close>

lemma foldl_add_upt:
  "foldl (\<lambda>s i. s + f i) a [0..<n] = a + (\<Sum>i<n. f i)" for a :: real
  by (induction n) (simp_all add: add.assoc)

lemma shoelaceSum_sum:
  "shoelaceSum pts = (\<Sum>i<length pts. cross (pts ! i) (pts ! ((i + 1) mod length pts)))"
  by (simp add: shoelaceSum_def Let_def foldl_add_upt cross_def)

lemma cross_swap: "cross b a = - cross a b"
  by (simp add: cross_def)

text \<open>The same sum over the polygon's edges, for evaluation on a concrete polygon.\<close>

lemma shoelaceSum_rotate1:
  "shoelaceSum pts = sum_list (map2 cross pts (rotate1 pts))"
proof -
  have "sum_list (map2 cross pts (rotate1 pts))
          = (\<Sum>i<length pts. cross (pts ! i) (rotate1 pts ! i))"
    by (simp add: sum_list_sum_nth atLeast0LessThan)
  also have "\<dots> = (\<Sum>i<length pts. cross (pts ! i) (pts ! ((i + 1) mod length pts)))"
    by (intro sum.cong refl) (simp add: nth_rotate1)
  finally show ?thesis by (simp add: shoelaceSum_sum)
qed

lemma shoelaceSum_rev: "shoelaceSum (rev pts) = - shoelaceSum pts"
proof (cases "pts = []")
  case True
  then show ?thesis by (simp add: shoelaceSum_def)
next
  case False
  define n where "n = length pts"
  have n: "0 < n" using False by (simp add: n_def)
  define r where "r = (\<lambda>i. n - 1 - ((i + 1) mod n))"
  have r_lt: "r i < n" if "i < n" for i
    using that n by (simp add: r_def)
  have r_inv: "r (r i) = i" if "i < n" for i
  proof (cases "i + 1 = n")
    case True
    then show ?thesis using that by (simp add: r_def)
  next
    case False
    then have "i + 1 < n" using that by simp
    then show ?thesis by (simp add: r_def)
  qed
  have suc_r: "(r i + 1) mod n = n - 1 - i" if "i < n" for i
  proof (cases "i + 1 = n")
    case True
    then show ?thesis using that by (simp add: r_def)
  next
    case False
    then have "i + 1 < n" using that by simp
    then show ?thesis by (simp add: r_def)
  qed
  have nth1: "rev pts ! i = pts ! (n - 1 - i)" if "i < n" for i
    using that by (simp add: rev_nth n_def)
  have "shoelaceSum (rev pts) = (\<Sum>i<n. cross (rev pts ! i) (rev pts ! ((i + 1) mod n)))"
    by (simp add: shoelaceSum_sum n_def)
  also have "\<dots> = (\<Sum>i<n. cross (pts ! (n - 1 - i)) (pts ! r i))"
    using n by (intro sum.cong refl) (simp add: nth1 r_def)
  also have "\<dots> = (\<Sum>j<n. cross (pts ! ((j + 1) mod n)) (pts ! j))"
  proof (rule sum.reindex_bij_witness [where i = r and j = r])
    fix a assume "a \<in> {..<n}"
    then have a: "a < n" by simp
    show "r (r a) = a" using r_inv a .
    show "r a \<in> {..<n}" using r_lt a by simp
    show "cross (pts ! ((r a + 1) mod n)) (pts ! r a) = cross (pts ! (n - 1 - a)) (pts ! r a)"
      using a by (simp only: suc_r)
  next
    fix b assume "b \<in> {..<n}"
    then have b: "b < n" by simp
    show "r (r b) = b" using r_inv b .
    show "r b \<in> {..<n}" using r_lt b by simp
  qed
  also have "\<dots> = - (\<Sum>j<n. cross (pts ! j) (pts ! ((j + 1) mod n)))"
    by (subst cross_swap) (simp add: sum_negf)
  finally show ?thesis
    by (simp add: shoelaceSum_sum n_def)
qed


lemma sum_cyclic_shift:
  "(\<Sum>i<n. f ((i + 1) mod n)) = (\<Sum>i<n. f i)" for f :: "nat \<Rightarrow> real"
proof (cases n)
  case 0
  then show ?thesis by simp
next
  case (Suc m)
  have "(\<Sum>i<Suc m. f ((i + 1) mod Suc m)) = (\<Sum>i<m. f (Suc i)) + f 0"
    by simp
  also have "\<dots> = (\<Sum>i<Suc m. f i)"
    using sum.lessThan_Suc_shift [of f m] by simp
  finally show ?thesis using Suc by simp
qed

lemma cross_toMetersXY:
  "cross (toMetersXY \<phi> p) (toMetersXY \<phi> q)
     = cos ((\<phi> * pi) / 180) * cross (planar p) (planar q)
       - cos ((\<phi> * pi) / 180) * (6378137 * ((\<phi> * pi) / 180))
           * (fst (planar p) - fst (planar q))"
  by (simp add: cross_def toMetersXY_def planar_def Let_def algebra_simps diff_divide_distrib)

lemma shoelaceSum_origin:
  "shoelaceSum (map (toMetersXY \<phi>) poly)
     = cos ((\<phi> * pi) / 180) * shoelaceSum (map planar poly)"
proof -
  define n where "n = length poly"
  define a where "a = (\<lambda>i. fst (planar (poly ! i)))"
  define g where "g = (\<lambda>i. cross (planar (poly ! i)) (planar (poly ! ((i + 1) mod n))))"
  define c where "c = cos ((\<phi> * pi) / 180)"
  define \<beta> where "\<beta> = 6378137 * ((\<phi> * pi) / 180)"
  have idx: "(i + 1) mod n < n" if "i < n" for i
    using that by simp
  define d where "d = (\<lambda>i. a i - a ((i + 1) mod n))"
  have zero: "(\<Sum>i<n. d i) = 0"
    unfolding d_def by (simp only: sum_subtractf sum_cyclic_shift diff_self)
  have "shoelaceSum (map (toMetersXY \<phi>) poly)
          = (\<Sum>i<n. cross (toMetersXY \<phi> (poly ! i)) (toMetersXY \<phi> (poly ! ((i + 1) mod n))))"
    using idx by (simp add: shoelaceSum_sum n_def)
  also have "\<dots> = (\<Sum>i<n. c * g i - c * \<beta> * d i)"
    by (simp add: cross_toMetersXY c_def \<beta>_def a_def g_def d_def)
  also have "\<dots> = c * (\<Sum>i<n. g i) - c * \<beta> * (\<Sum>i<n. d i)"
    by (simp only: sum_subtractf sum_distrib_left)
  also have "\<dots> = c * (\<Sum>i<n. g i)"
    by (simp add: zero)
  also have "(\<Sum>i<n. g i) = shoelaceSum (map planar poly)"
    using idx by (simp add: shoelaceSum_sum n_def g_def)
  finally show ?thesis by (simp add: c_def)
qed

lemma polygonAreaM2_factor:
  assumes "3 \<le> length poly"
  shows "polygonAreaM2 poly
           = \<bar>cos ((latitude (poly ! 0) * pi) / 180)\<bar> * (\<bar>shoelaceSum (map (planar) poly)\<bar> / 2)"
  using assms by (simp add: polygonAreaM2_def Let_def shoelaceSum_origin abs_mult)

lemma polygonAreaM2_rev_factor:
  assumes "3 \<le> length poly"
  shows "polygonAreaM2 (rev poly)
           = \<bar>cos ((latitude (poly ! (length poly - 1)) * pi) / 180)\<bar>
               * (\<bar>shoelaceSum (map (planar) poly)\<bar> / 2)"
proof -
  have "rev poly ! 0 = poly ! (length poly - 1)"
  proof -
    have "poly \<noteq> []" using assms by auto
    then show ?thesis using rev_nth [of 0 poly] by simp
  qed
  then show ?thesis
    using assms polygonAreaM2_factor [of "rev poly"]
    by (simp add: rev_map [symmetric] shoelaceSum_rev)
qed

lemma shoelace_triangle:
  "shoelaceSum (map planar triangle) = 40680631590769 * (pi * pi) / 32400000000"
  by (simp add: planar_def triangle_def pt_def shoelaceSum_rotate1 cross_def)

lemma area_block: "polygonAreaM2 block = 40680631590769 * (pi * pi) / 32400000000"
  by (simp add: polygonAreaM2_def toMetersXY_def block_def pt_def shoelaceSum_rotate1 cross_def)

text \<open>
  Claim C7, as amended.  An input of fewer than three points has area 0.  The projection
  takes the latitude of the first point of the order given as its origin, so the area for
  the reversed order is the area for the original order scaled by the ratio of the
  cosines of the two end points' latitudes; the two areas are equal whenever the last
  point has the latitude of the first.
\<close>

theorem polygonAreaM2_reversal:
  "(length poly < 3 \<longrightarrow> polygonAreaM2 poly = 0)
   \<and> (latitude (poly ! (length poly - 1)) = latitude (poly ! 0) \<longrightarrow>
        polygonAreaM2 (rev poly) = polygonAreaM2 poly)
   \<and> polygonAreaM2 (rev poly) * \<bar>cos ((latitude (poly ! 0) * pi) / 180)\<bar>
       = polygonAreaM2 poly * \<bar>cos ((latitude (poly ! (length poly - 1)) * pi) / 180)\<bar>"
proof (cases "length poly < 3")
  case True
  then show ?thesis by (simp add: polygonAreaM2_def)
next
  case False
  then have len: "3 \<le> length poly" by simp
  show ?thesis
    using False
    by (simp add: polygonAreaM2_rev_factor [OF len] polygonAreaM2_factor [OF len])
qed

theorem polygonAreaM2_reversal_witness:
  "length [pt 0 0 0, pt 0.001 0 3000] < 3
   \<and> polygonAreaM2 [pt 0 0 0, pt 0.001 0 3000] = 0
   \<and> latitude (block ! (length block - 1)) = latitude (block ! 0)
   \<and> polygonAreaM2 (rev block) = polygonAreaM2 block
   \<and> polygonAreaM2 block = 40680631590769 * (pi * pi) / 32400000000"
proof -
  have eq: "latitude (block ! (length block - 1)) = latitude (block ! 0)"
    by (simp add: block_def pt_def)
  show ?thesis
    using eq area_block polygonAreaM2_reversal [of "[pt 0 0 0, pt 0.001 0 3000]"]
      polygonAreaM2_reversal [of block]
    by simp
qed

text \<open>
  Claim C7 as stated, without the condition on the latitudes, fails on a triangle of
  about 78 m by 111 m at latitude 45: the reversed order has the greater origin latitude
  and hence the smaller area.
\<close>

theorem polygonAreaM2_reversal_counterexample:
  "polygonAreaM2 (rev [pt 45 0 0, pt 45 0.001 3000, pt 45.001 0.001 6000])
     \<noteq> polygonAreaM2 [pt 45 0 0, pt 45 0.001 3000, pt 45.001 0.001 6000]"
proof -
  have len: "3 \<le> length triangle" by (simp add: triangle_def)
  have A: "0 < \<bar>shoelaceSum (map planar triangle)\<bar> / 2"
    by (simp add: shoelace_triangle)
  have first: "latitude (triangle ! 0) = 45" and last: "latitude (triangle ! (length triangle - 1)) = 45.001"
    by (simp_all add: triangle_def pt_def)
  have lt: "cos ((45.001 * pi) / 180) < cos ((45 * pi) / 180)"
    by (rule cos_monotone_0_pi) (use pi_gt_zero in simp_all)
  have pos: "0 < cos ((45.001 * pi) / 180)"
    by (rule cos_gt_zero_pi) (use pi_gt_zero in simp_all)
  have "polygonAreaM2 (rev triangle) < polygonAreaM2 triangle"
    unfolding polygonAreaM2_rev_factor [OF len] polygonAreaM2_factor [OF len] first last
    using lt pos A by (intro mult_strict_right_mono) simp_all
  then show ?thesis by (simp add: triangle_def)
qed

section \<open>Distances\<close>

lemma atan2_nonneg:
  assumes "0 \<le> y"
  shows "0 \<le> atan2 y x"
proof -
  have a: "- (pi / 2) < arctan (y / x)" by (rule arctan_lbound)
  consider "0 < x" | "x < 0" | "x = 0" by linarith
  then show ?thesis
  proof cases
    case 1
    then have "0 \<le> y / x" using assms by simp
    then show ?thesis using 1 by (simp add: atan2_def)
  next
    case 2
    have "0 \<le> arctan (y / x) + pi" using a pi_gt_zero by linarith
    then show ?thesis using 2 assms by (simp add: atan2_def)
  next
    case 3
    then show ?thesis using assms pi_gt_zero by (simp add: atan2_def)
  qed
qed

lemma toRad_bound:
  assumes "\<bar>x\<bar> \<le> c"
  shows "\<bar>toRad x\<bar> \<le> c * pi / 180"
proof -
  have "\<bar>x\<bar> * pi \<le> c * pi"
    using assms pi_gt_zero by (intro mult_right_mono) simp_all
  then show ?thesis
    by (simp add: toRad_def abs_mult)
qed

lemma toRad_strict_bound:
  assumes "\<bar>x\<bar> < c"
  shows "\<bar>toRad x\<bar> < c * pi / 180"
proof -
  have "\<bar>x\<bar> * pi < c * pi"
    using assms pi_gt_zero by (intro mult_strict_right_mono) simp_all
  then show ?thesis
    by (simp add: toRad_def abs_mult)
qed

lemma cos_toRad_nonneg:
  assumes "\<bar>x\<bar> \<le> 90"
  shows "0 \<le> cos (toRad x)"
proof -
  have "\<bar>toRad x\<bar> \<le> pi / 2"
    using toRad_bound [OF assms] by simp
  then show ?thesis
    by (intro cos_ge_zero) (simp_all add: abs_le_iff)
qed

lemma haversine_nonneg:
  assumes "\<bar>latitude a\<bar> \<le> 90" and "\<bar>latitude b\<bar> \<le> 90"
  shows "0 \<le> haversine a b"
proof -
  define s where "s = sin (toRad (longitude b - longitude a) / 2)"
  define h where "h = sin (toRad (latitude b - latitude a) / 2) * sin (toRad (latitude b - latitude a) / 2)
      + cos (toRad (latitude a)) * cos (toRad (latitude b)) * s * s"
  have cc: "0 \<le> cos (toRad (latitude a)) * cos (toRad (latitude b))"
    using assms by (intro mult_nonneg_nonneg cos_toRad_nonneg)
  have ss: "0 \<le> s * s" by simp
  have "0 \<le> cos (toRad (latitude a)) * cos (toRad (latitude b)) * (s * s)"
    using cc ss by (rule mult_nonneg_nonneg)
  then have "0 \<le> h"
    unfolding h_def by (simp add: mult.assoc)
  then have "0 \<le> atan2 (sqrt h) (sqrt (1 - h))"
    by (intro atan2_nonneg) simp
  then show ?thesis
    by (simp add: haversine_def Let_def h_def s_def)
qed

lemma haversine_meridian:
  assumes "longitude a = longitude b" and "\<bar>latitude b - latitude a\<bar> < 180"
  shows "haversine a b = 6371000 * (\<bar>latitude b - latitude a\<bar> * pi / 180)"
proof -
  define x where "x = toRad (latitude b - latitude a) / 2"
  have ax: "\<bar>x\<bar> < pi / 2"
    using toRad_strict_bound [OF assms(2)] by (simp add: x_def)
  then have c: "0 < cos x"
    by (intro cos_gt_zero_pi) (simp_all add: abs_less_iff)
  have h: "sin x * sin x + cos (toRad (latitude a)) * cos (toRad (latitude b))
             * sin (toRad (longitude b - longitude a) / 2) * sin (toRad (longitude b - longitude a) / 2)
           = (sin x)\<^sup>2"
    using assms(1) by (simp add: toRad_def power2_eq_square)
  have s1: "sqrt ((sin x)\<^sup>2) = \<bar>sin x\<bar>" by simp
  have "1 - (sin x)\<^sup>2 = (cos x)\<^sup>2"
    using sin_cos_squared_add [of x] by linarith
  then have s2: "sqrt (1 - (sin x)\<^sup>2) = cos x"
    using c by simp
  have "0 \<le> sin \<bar>x\<bar>"
    using ax pi_gt_zero by (intro sin_ge_zero) simp_all
  then have "\<bar>sin x\<bar> = sin \<bar>x\<bar>"
    by (cases "0 \<le> x") (simp_all add: abs_if)
  then have "\<bar>sin x\<bar> / cos x = tan \<bar>x\<bar>"
    by (simp add: tan_def)
  then have "atan2 \<bar>sin x\<bar> (cos x) = \<bar>x\<bar>"
    using c ax by (simp add: atan2_def arctan_tan)
  then have "haversine a b = 6371000 * (2 * \<bar>x\<bar>)"
    unfolding haversine_def Let_def x_def [symmetric] h s1 s2 by simp
  also have "2 * \<bar>x\<bar> = \<bar>latitude b - latitude a\<bar> * pi / 180"
    by (simp add: x_def toRad_def abs_mult)
  finally show ?thesis .
qed

section \<open>The scan as a search for the first candidate\<close>

lemma foldl_add_upt_from:
  "foldl (\<lambda>s j. s + f j) a [i..<n] = a + (\<Sum>j = i..<n. f j)" for a :: real
proof (induction n)
  case 0
  then show ?case by simp
next
  case (Suc n)
  then show ?case by (cases "i \<le> n") (simp_all add: add.assoc)
qed

lemma pathDist_sum: "pathDist smoothed i = cumulativeDistance smoothed i"
  by (simp add: pathDist_def cumulativeDistance_def foldl_add_upt_from)

lemma scanLoop_find:
  "scanLoop smoothed lastp i =
     map_option (\<lambda>k. (k, pathDist smoothed k))
       (find (\<lambda>k. haversine (smoothed ! k) lastp < LOOP_CLOSE_THRESHOLD_M
                   \<and> pathDist smoothed k > MIN_LOOP_DISTANCE_M)
             [i..<length smoothed - 10])"
proof (induction smoothed lastp i rule: scanLoop.induct)
  case (1 smoothed lastp i)
  define P where "P = (\<lambda>k. haversine (smoothed ! k) lastp < LOOP_CLOSE_THRESHOLD_M
                            \<and> pathDist smoothed k > MIN_LOOP_DISTANCE_M)"
  show ?case
    unfolding P_def [symmetric]
  proof (cases "i < length smoothed - 10")
    case True
    then have guard: "int i < max 0 (int (length smoothed) - 10)" by simp
    have upt: "[i..<length smoothed - 10] = i # [i + 1..<length smoothed - 10]"
      using True by (simp add: upt_conv_Cons)
    show "scanLoop smoothed lastp i
            = map_option (\<lambda>k. (k, pathDist smoothed k)) (find P [i..<length smoothed - 10])"
    proof (cases "P i")
      case True
      then have "scanLoop smoothed lastp i = Some (i, pathDist smoothed i)"
        using guard by (subst scanLoop.simps) (simp add: P_def)
      then show ?thesis
        using True by (simp add: upt)
    next
      case False
      then have "scanLoop smoothed lastp i = scanLoop smoothed lastp (i + 1)"
        using guard by (subst scanLoop.simps) (auto simp: P_def)
      also have "\<dots> = map_option (\<lambda>k. (k, pathDist smoothed k))
                          (find P [i + 1..<length smoothed - 10])"
        using "1.IH" [OF guard] False by (auto simp: P_def)
      finally show ?thesis
        using False by (simp add: upt)
    qed
  next
    case False
    then have "\<not> int i < max 0 (int (length smoothed) - 10)" by simp
    then have "scanLoop smoothed lastp i = None"
      by (subst scanLoop.simps) simp
    then show "scanLoop smoothed lastp i
            = map_option (\<lambda>k. (k, pathDist smoothed k)) (find P [i..<length smoothed - 10])"
      using False by simp
  qed
qed

lemma detectLoop_first:
  "detectLoop smoothed
     = map_option (\<lambda>i. (i, cumulativeDistance smoothed i)) (firstLoopStart smoothed)"
proof (cases "length smoothed > 10")
  case True
  then have "smoothed \<noteq> []" by auto
  then have "smoothed ! (length smoothed - 1) = last smoothed"
    by (simp add: last_conv_nth)
  then show ?thesis
    using True
    by (simp add: detectLoop_def firstLoopStart_def scanLoop_find pathDist_sum closesLoop_def
        LOOP_CLOSE_THRESHOLD_M_def MIN_LOOP_DISTANCE_M_def cong: find_cong)
next
  case False
  then show ?thesis by (simp add: detectLoop_def firstLoopStart_def)
qed

lemma firstLoopStart_Some_iff:
  "firstLoopStart smoothed = Some i \<longleftrightarrow>
     10 < length smoothed \<and> i < length smoothed - 10 \<and> closesLoop smoothed i
     \<and> (\<forall>j<i. \<not> closesLoop smoothed j)"
  by (auto simp: firstLoopStart_def find_Some_iff)

lemma firstLoopStart_None_iff:
  "firstLoopStart smoothed = None \<longleftrightarrow>
     (10 < length smoothed \<longrightarrow> (\<forall>i<length smoothed - 10. \<not> closesLoop smoothed i))"
  by (auto simp: firstLoopStart_def find_None_iff)

section \<open>The two example paths\<close>

lemma smoothPath_ride: "smoothPath ride 3 = smoothedRide"
  by (simp add: smooth_defs ride_def smoothedRide_def pt_def upt_rec upto_rec1)


lemma pi_ge_three: "3 \<le> pi"
proof -
  have "sin (pi / 6) \<le> pi / 6"
    by (rule sin_x_le_x) simp
  then show ?thesis by (simp add: sin_30)
qed

lemma cumulativeDistance_ge_leg:
  assumes "list_all (\<lambda>p. \<bar>latitude p\<bar> \<le> 90) smoothed" and "i \<le> k" and "k < length smoothed - 1"
  shows "haversine (smoothed ! k) (smoothed ! (k + 1)) \<le> cumulativeDistance smoothed i"
  unfolding cumulativeDistance_def
proof (rule member_le_sum)
  show "k \<in> {i..<length smoothed - 1}" using assms by simp
  show "finite {i..<length smoothed - 1}" by simp
  fix j assume "j \<in> {i..<length smoothed - 1} - {k}"
  then have "j < length smoothed" and "j + 1 < length smoothed" by auto
  then have "\<bar>latitude (smoothed ! j)\<bar> \<le> 90" and "\<bar>latitude (smoothed ! (j + 1))\<bar> \<le> 90"
    using assms(1) by (simp_all add: list_all_length)
  then show "0 \<le> haversine (smoothed ! j) (smoothed ! (j + 1))"
    by (rule haversine_nonneg)
qed

lemma last_smoothedRide: "last smoothedRide = pt 0.0003 0 49500"
  by (simp add: smoothedRide_def)

lemma far0: "\<not> closesLoop smoothedRide 0"
proof -
  have "haversine (smoothedRide ! 0) (last smoothedRide) = 6371000 * (0.0008 * pi / 180)"
    unfolding last_smoothedRide
    by (subst haversine_meridian) (simp_all add: smoothedRide_def pt_def)
  then show ?thesis using pi_ge_three by (simp add: closesLoop_def)
qed

lemma far1: "\<not> closesLoop smoothedRide 1"
proof -
  have "haversine (smoothedRide ! 1) (last smoothedRide) = 6371000 * (0.0007 * pi / 180)"
    unfolding last_smoothedRide
    by (subst haversine_meridian) (simp_all add: smoothedRide_def pt_def)
  then show ?thesis using pi_ge_three by (simp add: closesLoop_def)
qed

lemma far2_distance: "\<not> haversine (smoothedRide ! 2) (last smoothedRide) < 50"
proof -
  have "haversine (smoothedRide ! 2) (last smoothedRide) = 6371000 * (0.0005 * pi / 180)"
    unfolding last_smoothedRide
    by (subst haversine_meridian) (simp_all add: smoothedRide_def pt_def)
  then show ?thesis using pi_ge_three by simp
qed

lemma far2: "\<not> closesLoop smoothedRide 2"
  using far2_distance by (simp add: closesLoop_def)

lemma near3: "closesLoop smoothedRide 3"
proof -
  have d: "haversine (smoothedRide ! 3) (last smoothedRide) = 6371000 * (0.0003 * pi / 180)"
    unfolding last_smoothedRide
    by (subst haversine_meridian) (simp_all add: smoothedRide_def pt_def)
  have leg: "haversine (smoothedRide ! 3) (smoothedRide ! (3 + 1)) = 6371000 * (0.0002 * pi / 180)"
    by (subst haversine_meridian) (simp_all add: smoothedRide_def pt_def)
  have "list_all (\<lambda>p. \<bar>latitude p\<bar> \<le> 90) smoothedRide"
    by (simp add: smoothedRide_def pt_def)
  then have "haversine (smoothedRide ! 3) (smoothedRide ! (3 + 1)) \<le> cumulativeDistance smoothedRide 3"
    by (rule cumulativeDistance_ge_leg) (simp_all add: smoothedRide_def)
  then have "20 < cumulativeDistance smoothedRide 3"
    using pi_ge_three unfolding leg by simp
  moreover have "haversine (smoothedRide ! 3) (last smoothedRide) < 50"
    using pi_less_4 unfolding d by simp
  ultimately show ?thesis by (simp add: closesLoop_def)
qed

lemma firstLoopStart_ride: "firstLoopStart smoothedRide = Some 3"
proof -
  have "\<not> closesLoop smoothedRide j" if "j < 3" for j
  proof -
    from that consider "j = 0" | "j = 1" | "j = 2" by linarith
    then show ?thesis using far0 far1 far2 by cases simp_all
  qed
  then show ?thesis
    using near3 by (simp add: firstLoopStart_Some_iff) (simp add: smoothedRide_def)
qed

lemma area_ride:
  "polygonAreaM2 (drop 3 smoothedRide) = 40680631590769 * (pi * pi) / 121500000000"
  by (simp add: polygonAreaM2_def toMetersXY_def shoelaceSum_rotate1 cross_def smoothedRide_def
      pt_def Let_def)

lemma area_ride_large: "30 \<le> polygonAreaM2 (drop 3 smoothedRide)"
proof -
  have "3 * 3 \<le> pi * pi"
    using pi_ge_three by (intro mult_mono) simp_all
  then show ?thesis
    unfolding area_ride by simp
qed

lemma loopEffect_detect:
  "loopEffect newId now (Some m) oid st =
     (let smoothed = smoothPath (path st) 3 in
      case detectLoop smoothed of
        None \<Rightarrow> st
      | Some (i, d) \<Rightarrow>
          if polygonAreaM2 (drop i smoothed) \<ge> MIN_TERRITORY_AREA_M2 then
            st\<lparr>territories :=
                 fst (setTerritoriesUpdater oid (newTerr newId m (drop i smoothed) now oid)
                        (territories st)),
               capturedLoopCount := capturedLoopCount st + 1,
               lastCaptured := Some (newTerr newId m (drop i smoothed) now oid),
               path := take (i + 1) smoothed\<rparr>
          else st)"
proof (cases "length (path st) < 2")
  case True
  then have "smoothPath (path st) 3 = path st"
    by (simp add: smoothPath_def)
  then have "detectLoop (smoothPath (path st) 3) = None"
    using True by (simp add: detectLoop_def)
  then show ?thesis
    using True by (simp add: loopEffect_def)
next
  case False
  then show ?thesis
    by (simp add: loopEffect_def Let_def split: option.splits prod.splits)
qed



lemma smoothPath_outAndBack: "smoothPath outAndBack 3 = smoothedOutAndBack"
  by (simp add: smooth_defs outAndBack_def smoothedOutAndBack_def pt_def upt_rec upto_rec1)

lemma firstLoopStart_outAndBack: "firstLoopStart smoothedOutAndBack = Some 0"
proof -
  have l: "last smoothedOutAndBack = pt 0.0001 0 34500"
    by (simp add: smoothedOutAndBack_def)
  have d: "haversine (smoothedOutAndBack ! 0) (last smoothedOutAndBack) = 6371000 * (0 * pi / 180)"
    unfolding l by (subst haversine_meridian) (simp_all add: smoothedOutAndBack_def pt_def)
  have leg: "haversine (smoothedOutAndBack ! 1) (smoothedOutAndBack ! (1 + 1))
               = 6371000 * (0.0002 * pi / 180)"
    by (subst haversine_meridian) (simp_all add: smoothedOutAndBack_def pt_def)
  have "list_all (\<lambda>p. \<bar>latitude p\<bar> \<le> 90) smoothedOutAndBack"
    by (simp add: smoothedOutAndBack_def pt_def)
  then have "haversine (smoothedOutAndBack ! 1) (smoothedOutAndBack ! (1 + 1))
               \<le> cumulativeDistance smoothedOutAndBack 0"
    by (rule cumulativeDistance_ge_leg) (simp_all add: smoothedOutAndBack_def)
  then have "20 < cumulativeDistance smoothedOutAndBack 0"
    using pi_ge_three unfolding leg by simp
  then have "closesLoop smoothedOutAndBack 0"
    unfolding closesLoop_def d by simp
  then show ?thesis
    by (simp add: firstLoopStart_Some_iff) (simp add: smoothedOutAndBack_def)
qed

lemma area_outAndBack: "polygonAreaM2 (drop 0 smoothedOutAndBack) = 0"
  by (simp add: polygonAreaM2_def toMetersXY_def shoelaceSum_rotate1 cross_def
      smoothedOutAndBack_def pt_def Let_def)



section \<open>Claims about loop detection\<close>



text \<open>
  Claim C5, as amended.  When a loop is captured at the index \<open>i\<close>, the new path is made
  of the points \<open>0 .. i\<close> of the smoothed path, \<open>i + 1\<close> points in all; these are smoothed
  points, not the points \<open>0 .. i\<close> of the path as recorded.  When the area of the candidate
  polygon is below 30, and when no candidate is found, the run changes nothing.
\<close>

theorem path_after_capture:
  "(detectLoop (smoothPath (path st) 3) = Some (i, d)
      \<and> polygonAreaM2 (drop i (smoothPath (path st) 3)) \<ge> MIN_TERRITORY_AREA_M2 \<longrightarrow>
        path (loopEffect newId now (Some m) oid st) = take (i + 1) (smoothPath (path st) 3)
        \<and> length (path (loopEffect newId now (Some m) oid st)) = i + 1
        \<and> i + 1 < length (path st))
   \<and> (detectLoop (smoothPath (path st) 3) = Some (i, d)
      \<and> polygonAreaM2 (drop i (smoothPath (path st) 3)) < MIN_TERRITORY_AREA_M2 \<longrightarrow>
        loopEffect newId now (Some m) oid st = st)
   \<and> (detectLoop (smoothPath (path st) 3) = None \<longrightarrow>
        loopEffect newId now (Some m) oid st = st)"
proof -
  have len: "i < length (smoothPath (path st) 3) - 10 \<and> 10 < length (smoothPath (path st) 3)"
    if "detectLoop (smoothPath (path st) 3) = Some (i, d)"
    using that by (auto simp: detectLoop_first firstLoopStart_Some_iff)
  have l: "length (smoothPath (path st) 3) = length (path st)"
    by (simp add: smoothPath_def Let_def)
  show ?thesis
    using len unfolding l [symmetric]
    by (auto simp: loopEffect_detect Let_def)
qed

theorem path_after_capture_witness:
  "detectLoop (smoothPath (path rideState) 3) = Some (3, cumulativeDistance smoothedRide 3)
   \<and> polygonAreaM2 (drop 3 (smoothPath (path rideState) 3)) \<ge> MIN_TERRITORY_AREA_M2
   \<and> path (loopEffect ''n1'' 60000 (Some Cycle) ''A'' rideState)
       = [pt (-0.0005) 0 1500, pt (-0.0004) 0 3000, pt (-0.0002) 0 6000, pt 0 0 9000]
   \<and> detectLoop (smoothPath (path walkState) 3) = Some (0, cumulativeDistance smoothedOutAndBack 0)
   \<and> polygonAreaM2 (drop 0 (smoothPath (path walkState) 3)) < MIN_TERRITORY_AREA_M2
   \<and> loopEffect ''n2'' 60000 (Some Walk) ''A'' walkState = walkState"
proof -
  have p: "path rideState = ride" "path walkState = outAndBack"
    by (simp_all add: rideState_def walkState_def)
  have d1: "detectLoop smoothedRide = Some (3, cumulativeDistance smoothedRide 3)"
    by (simp add: detectLoop_first firstLoopStart_ride)
  have d2: "detectLoop smoothedOutAndBack = Some (0, cumulativeDistance smoothedOutAndBack 0)"
    by (simp add: detectLoop_first firstLoopStart_outAndBack)
  have a1: "polygonAreaM2 (drop 3 smoothedRide) \<ge> MIN_TERRITORY_AREA_M2"
    using area_ride_large by (simp add: MIN_TERRITORY_AREA_M2_def)
  have a2: "polygonAreaM2 (drop 0 smoothedOutAndBack) < MIN_TERRITORY_AREA_M2"
    using area_outAndBack by (simp add: MIN_TERRITORY_AREA_M2_def)
  have t: "take (3 + 1) smoothedRide
             = [pt (-0.0005) 0 1500, pt (-0.0004) 0 3000, pt (-0.0002) 0 6000, pt 0 0 9000]"
    by (simp add: smoothedRide_def)
  show ?thesis
    using path_after_capture [of rideState 3 "cumulativeDistance smoothedRide 3" "''n1''" 60000 Cycle "''A''"]
      path_after_capture [of walkState 0 "cumulativeDistance smoothedOutAndBack 0" "''n2''" 60000 Walk "''A''"]
      d1 d2 a1 a2 t
    unfolding p smoothPath_ride smoothPath_outAndBack
    by simp
qed

text \<open>
  Claim C5 as stated fails on the ride: the loop is captured at the index 3, and the
  new path is not the points 0 to 3 of the recorded path, whose first point is at
  latitude -0.0006 and time 0.
\<close>

theorem path_after_capture_counterexample:
  "lastCaptured (loopEffect ''n1'' 60000 (Some Cycle) ''A'' rideState) \<noteq> None
   \<and> map_option fst (detectLoop (smoothPath (path rideState) 3)) = Some 3
   \<and> path (loopEffect ''n1'' 60000 (Some Cycle) ''A'' rideState)
       = [pt (-0.0005) 0 1500, pt (-0.0004) 0 3000, pt (-0.0002) 0 6000, pt 0 0 9000]
   \<and> take (3 + 1) (path rideState)
       = [pt (-0.0006) 0 0, pt (-0.0004) 0 3000, pt (-0.0002) 0 6000, pt 0 0 9000]
   \<and> path (loopEffect ''n1'' 60000 (Some Cycle) ''A'' rideState) \<noteq> take (3 + 1) (path rideState)"
proof -
  have p: "path rideState = ride"
    by (simp add: rideState_def)
  have d: "detectLoop smoothedRide = Some (3, cumulativeDistance smoothedRide 3)"
    by (simp add: detectLoop_first firstLoopStart_ride)
  have e: "loopEffect ''n1'' 60000 (Some Cycle) ''A'' rideState
      = rideState\<lparr>territories :=
                 fst (setTerritoriesUpdater ''A'' (newTerr ''n1'' Cycle (drop 3 smoothedRide) 60000 ''A'')
                        (territories rideState)),
               capturedLoopCount := capturedLoopCount rideState + 1,
               lastCaptured := Some (newTerr ''n1'' Cycle (drop 3 smoothedRide) 60000 ''A''),
               path := take (3 + 1) smoothedRide\<rparr>"
    using area_ride_large
    by (simp add: loopEffect_detect p smoothPath_ride d MIN_TERRITORY_AREA_M2_def)
  have t1: "take (3 + 1) smoothedRide
             = [pt (-0.0005) 0 1500, pt (-0.0004) 0 3000, pt (-0.0002) 0 6000, pt 0 0 9000]"
    by (simp add: smoothedRide_def)
  have t2: "take (3 + 1) ride
             = [pt (-0.0006) 0 0, pt (-0.0004) 0 3000, pt (-0.0002) 0 6000, pt 0 0 9000]"
    by (simp add: ride_def)
  show ?thesis
    unfolding e p smoothPath_ride d using t1 t2 by (simp add: pt_def)
qed

end
